theory Spec2Isabelle
  imports Main "HOL-Library.Word"
begin

unbundle bit_operations_syntax

section \<open>JavaScript strings\<close>

text \<open>
  The add-on (\<^verbatim>\<open>src/Code.js\<close>) runs on Google Apps Script. Its strings are sequences of
  UTF-16 code units: \<^verbatim>\<open>charCodeAt\<close> reads one unit, \<^verbatim>\<open>String.fromCharCode\<close> builds one,
  \<^verbatim>\<open>length\<close> counts them. A string is therefore a list of 16-bit words and a byte an
  8-bit word. String literals of the source are written \<open>js ''...''\<close>.
\<close>

type_synonym jschar = "16 word"
type_synonym jsstring = "16 word list"
type_synonym byte = "8 word"

definition fromCharCode :: "nat \<Rightarrow> jschar" where
  "fromCharCode n = of_nat n"

definition byteOf :: "nat \<Rightarrow> byte" where
  "byteOf n = of_nat n"

definition js :: "string \<Rightarrow> jsstring" where
  "js s = map (\<lambda>c. fromCharCode (of_char c)) s"

definition isHighSurrogate :: "jschar \<Rightarrow> bool" where
  "isHighSurrogate c = (0xD800 \<le> unat c \<and> unat c < 0xDC00)"

definition isLowSurrogate :: "jschar \<Rightarrow> bool" where
  "isLowSurrogate c = (0xDC00 \<le> unat c \<and> unat c < 0xE000)"

text \<open>A string is well formed when every surrogate unit stands in a high-low pair.\<close>

fun wellFormedUtf16 :: "jsstring \<Rightarrow> bool" where
  "wellFormedUtf16 [] = True"
| "wellFormedUtf16 (c # cs) =
     (if isHighSurrogate c then
        (case cs of [] \<Rightarrow> False | d # ds \<Rightarrow> isLowSurrogate d \<and> wellFormedUtf16 ds)
      else \<not> isLowSurrogate c \<and> wellFormedUtf16 cs)"

subsection \<open>Errors and try/catch\<close>

text \<open>
  A thrown value is the left injection of a sum. \<open>Error\<close> is what the script throws
  with \<^verbatim>\<open>new Error(msg)\<close>; \<open>TypeError\<close> and \<open>SyntaxError\<close> come from the engine
  (their message texts are the engine's own; the model fixes one), \<open>Exception\<close> from a
  platform service.
\<close>

datatype js_error = Error jsstring | TypeError jsstring | SyntaxError jsstring | Exception jsstring

fun errorMessage :: "js_error \<Rightarrow> jsstring" where
  "errorMessage (Error m) = m"
| "errorMessage (TypeError m) = m"
| "errorMessage (SyntaxError m) = m"
| "errorMessage (Exception m) = m"

fun errorName :: "js_error \<Rightarrow> jsstring" where
  "errorName (Error m) = js ''Error''"
| "errorName (TypeError m) = js ''TypeError''"
| "errorName (SyntaxError m) = js ''SyntaxError''"
| "errorName (Exception m) = js ''Exception''"

text \<open>\<^verbatim>\<open>error.toString()\<close>: the name, then the message when there is one.\<close>

definition errorToString :: "js_error \<Rightarrow> jsstring" where
  "errorToString e =
     (if errorMessage e = [] then errorName e else errorName e @ js '': '' @ errorMessage e)"

definition tryCatch :: "(js_error + 'a) \<Rightarrow> (js_error \<Rightarrow> js_error + 'a) \<Rightarrow> js_error + 'a" where
  "tryCatch body handler = (case body of Inl e \<Rightarrow> handler e | Inr v \<Rightarrow> Inr v)"

subsection \<open>Numbers in strings: \<^verbatim>\<open>parseInt\<close>, number to string, \<^verbatim>\<open>split\<close>\<close>

text \<open>
  Numbers are modelled at their integral values, with \<open>NaN\<close> apart. The source's numbers
  are doubles; they agree with the integers below \<open>2^53\<close>, which covers every value of
  \<^verbatim>\<open>Date.getTime()\<close>.
\<close>

datatype jsnumber = NaN | Number int

definition isStrWhiteSpaceChar :: "jschar \<Rightarrow> bool" where
  "isStrWhiteSpaceChar c =
     (unat c \<in> set [0x09, 0x0A, 0x0B, 0x0C, 0x0D, 0x20, 0xA0, 0x1680, 0x2028, 0x2029,
                      0x202F, 0x205F, 0x3000, 0xFEFF]
      \<or> (0x2000 \<le> unat c \<and> unat c \<le> 0x200A))"

definition digitValue :: "nat \<Rightarrow> jschar \<Rightarrow> nat option" where
  "digitValue radix c =
     (let n = unat c;
          v = (if 0x30 \<le> n \<and> n \<le> 0x39 then Some (n - 0x30)
               else if 0x61 \<le> n \<and> n \<le> 0x7A then Some (n - 0x61 + 10)
               else if 0x41 \<le> n \<and> n \<le> 0x5A then Some (n - 0x41 + 10)
               else None)
      in case v of None \<Rightarrow> None | Some d \<Rightarrow> if d < radix then Some d else None)"

fun digitPrefix :: "nat \<Rightarrow> jsstring \<Rightarrow> nat list" where
  "digitPrefix radix [] = []"
| "digitPrefix radix (c # cs) =
     (case digitValue radix c of None \<Rightarrow> [] | Some d \<Rightarrow> d # digitPrefix radix cs)"

text \<open>
  \<^verbatim>\<open>parseInt(string)\<close> with no radix: leading white space is skipped, a sign is read, a
  prefix \<^verbatim>\<open>0x\<close> selects radix 16, and the longest run of digits is the value; with no
  digit the result is \<open>NaN\<close>.
\<close>

definition parseInt :: "jsstring \<Rightarrow> jsnumber" where
  "parseInt string =
     (let s = dropWhile isStrWhiteSpaceChar string;
          negative = (case s of [] \<Rightarrow> False | c # r \<Rightarrow> c = 0x2D);
          s1 = (case s of [] \<Rightarrow> s | c # r \<Rightarrow> if c = 0x2B \<or> c = 0x2D then r else s);
          hex = (case s1 of a # b # r \<Rightarrow> a = 0x30 \<and> (b = 0x78 \<or> b = 0x58) | _ \<Rightarrow> False);
          radix = (if hex then 16 else 10);
          ds = digitPrefix radix (if hex then drop 2 s1 else s1)
      in if ds = [] then NaN
         else Number ((if negative then - 1 else 1) * int (foldl (\<lambda>acc d. acc * radix + d) 0 ds)))"

function decimalDigits :: "nat \<Rightarrow> jsstring" where
  "decimalDigits n =
     (if n < 10 then [fromCharCode (0x30 + n)]
      else decimalDigits (n div 10) @ [fromCharCode (0x30 + n mod 10)])"
  by pat_completeness auto
termination
  by (relation "measure id") auto

declare decimalDigits.simps [simp del]

definition numberToString :: "int \<Rightarrow> jsstring" where
  "numberToString n = (if n < 0 then 0x2D # decimalDigits (nat (- n)) else decimalDigits (nat n))"

text \<open>\<^verbatim>\<open>string.split(sep)\<close> for a separator of one unit; the empty string gives one empty part.\<close>

fun splitOn :: "jschar \<Rightarrow> jsstring \<Rightarrow> jsstring list" where
  "splitOn sep [] = [[]]"
| "splitOn sep (c # cs) =
     (if c = sep then [] # splitOn sep cs
      else (case splitOn sep cs of [] \<Rightarrow> [[c]] | p # ps \<Rightarrow> (c # p) # ps))"

text \<open>\<^verbatim>\<open>a - b\<close> and \<^verbatim>\<open>x > c\<close> on numbers: \<open>NaN\<close> propagates and compares false.\<close>

fun minusNumber :: "int \<Rightarrow> jsnumber \<Rightarrow> jsnumber" where
  "minusNumber a NaN = NaN"
| "minusNumber a (Number b) = Number (a - b)"

fun greaterThan :: "jsnumber \<Rightarrow> int \<Rightarrow> bool" where
  "greaterThan NaN c = False"
| "greaterThan (Number x) c = (x > c)"

section \<open>The platform's text codec\<close>

text \<open>
  \<^verbatim>\<open>Utilities.base64Encode(string)\<close> encodes the string's UTF-8 bytes in Base64 (RFC
  4648, with padding); \<^verbatim>\<open>Utilities.base64Decode\<close> gives the bytes back and throws on
  input that is not Base64; \<^verbatim>\<open>Utilities.newBlob(bytes).getDataAsString()\<close> reads bytes as
  UTF-8. These are services of Apps Script, not code of the add-on; they are modelled
  from their documented behaviour. A surrogate unit without its partner has no UTF-8
  form: the encoder writes the replacement byte \<^verbatim>\<open>?\<close> for it. The decoder writes U+FFFD
  for a byte that starts no valid sequence and goes on with the next byte.
\<close>

definition utf8Bytes2 :: "nat \<Rightarrow> byte list" where
  "utf8Bytes2 n = [byteOf (0xC0 + n div 64), byteOf (0x80 + n mod 64)]"

definition utf8Bytes3 :: "nat \<Rightarrow> byte list" where
  "utf8Bytes3 n = [byteOf (0xE0 + n div 4096), byteOf (0x80 + n div 64 mod 64), byteOf (0x80 + n mod 64)]"

definition utf8Bytes4 :: "nat \<Rightarrow> byte list" where
  "utf8Bytes4 n = [byteOf (0xF0 + n div 262144), byteOf (0x80 + n div 4096 mod 64),
                   byteOf (0x80 + n div 64 mod 64), byteOf (0x80 + n mod 64)]"

definition pairCodePoint :: "jschar \<Rightarrow> jschar \<Rightarrow> nat" where
  "pairCodePoint hi lo = 0x10000 + (unat hi - 0xD800) * 0x400 + (unat lo - 0xDC00)"

fun utf8Encode :: "jsstring \<Rightarrow> byte list" where
  "utf8Encode [] = []"
| "utf8Encode (c # cs) =
     (if unat c < 0x80 then byteOf (unat c) # utf8Encode cs
      else if unat c < 0x800 then utf8Bytes2 (unat c) @ utf8Encode cs
      else if isHighSurrogate c then
        (case cs of
           [] \<Rightarrow> [0x3F]
         | d # ds \<Rightarrow>
             if isLowSurrogate d then utf8Bytes4 (pairCodePoint c d) @ utf8Encode ds
             else 0x3F # utf8Encode cs)
      else if isLowSurrogate c then 0x3F # utf8Encode cs
      else utf8Bytes3 (unat c) @ utf8Encode cs)"

definition isCont :: "byte \<Rightarrow> bool" where
  "isCont b = (0x80 \<le> unat b \<and> unat b < 0xC0)"

definition contBits :: "byte \<Rightarrow> nat" where
  "contBits b = unat b - 0x80"

definition surrogatePair :: "nat \<Rightarrow> jsstring" where
  "surrogatePair cp =
     [fromCharCode (0xD800 + (cp - 0x10000) div 0x400), fromCharCode (0xDC00 + (cp - 0x10000) mod 0x400)]"

fun utf8Decode :: "byte list \<Rightarrow> jsstring" where
  "utf8Decode [] = []"
| "utf8Decode (b # bs) =
     (if unat b < 0x80 then fromCharCode (unat b) # utf8Decode bs
      else if 0xC2 \<le> unat b \<and> unat b < 0xE0 then
        (case bs of
           b1 # r \<Rightarrow>
             if isCont b1 then fromCharCode ((unat b - 0xC0) * 64 + contBits b1) # utf8Decode r
             else 0xFFFD # utf8Decode bs
         | _ \<Rightarrow> 0xFFFD # utf8Decode bs)
      else if 0xE0 \<le> unat b \<and> unat b < 0xF0 then
        (case bs of
           b1 # b2 # r \<Rightarrow>
             (let cp = (unat b - 0xE0) * 4096 + contBits b1 * 64 + contBits b2
              in if isCont b1 \<and> isCont b2 \<and> 0x800 \<le> cp \<and> \<not> (0xD800 \<le> cp \<and> cp < 0xE000)
                 then fromCharCode cp # utf8Decode r
                 else 0xFFFD # utf8Decode bs)
         | _ \<Rightarrow> 0xFFFD # utf8Decode bs)
      else if 0xF0 \<le> unat b \<and> unat b < 0xF5 then
        (case bs of
           b1 # b2 # b3 # r \<Rightarrow>
             (let cp = (unat b - 0xF0) * 262144 + contBits b1 * 4096 + contBits b2 * 64 + contBits b3
              in if isCont b1 \<and> isCont b2 \<and> isCont b3 \<and> 0x10000 \<le> cp \<and> cp < 0x110000
                 then surrogatePair cp @ utf8Decode r
                 else 0xFFFD # utf8Decode bs)
         | _ \<Rightarrow> 0xFFFD # utf8Decode bs)
      else 0xFFFD # utf8Decode bs)"

definition base64Code :: "nat \<Rightarrow> nat" where
  "base64Code n =
     (if n < 26 then 0x41 + n
      else if n < 52 then 0x61 + (n - 26)
      else if n < 62 then 0x30 + (n - 52)
      else if n = 62 then 0x2B
      else 0x2F)"

definition base64Char :: "nat \<Rightarrow> jschar" where
  "base64Char n = fromCharCode (base64Code n)"

definition base64Value :: "jschar \<Rightarrow> nat option" where
  "base64Value c =
     (let n = unat c in
      if 0x41 \<le> n \<and> n \<le> 0x5A then Some (n - 0x41)
      else if 0x61 \<le> n \<and> n \<le> 0x7A then Some (n - 0x61 + 26)
      else if 0x30 \<le> n \<and> n \<le> 0x39 then Some (n - 0x30 + 52)
      else if n = 0x2B then Some 62
      else if n = 0x2F then Some 63
      else None)"

fun base64EncodeBytes :: "byte list \<Rightarrow> jsstring" where
  "base64EncodeBytes [] = []"
| "base64EncodeBytes [a] =
     [base64Char (unat a div 4), base64Char (unat a mod 4 * 16), 0x3D, 0x3D]"
| "base64EncodeBytes [a, b] =
     [base64Char (unat a div 4), base64Char (unat a mod 4 * 16 + unat b div 16),
      base64Char (unat b mod 16 * 4), 0x3D]"
| "base64EncodeBytes (a # b # c # r) =
     [base64Char (unat a div 4), base64Char (unat a mod 4 * 16 + unat b div 16),
      base64Char (unat b mod 16 * 4 + unat c div 64), base64Char (unat c mod 64)]
     @ base64EncodeBytes r"

definition decodeQuad :: "jschar \<Rightarrow> jschar \<Rightarrow> jschar \<Rightarrow> jschar \<Rightarrow> byte list option" where
  "decodeQuad w x y z =
     (case (base64Value w, base64Value x, base64Value y, base64Value z) of
        (Some p, Some q, Some r, Some s) \<Rightarrow>
          Some [byteOf (p * 4 + q div 16), byteOf (q mod 16 * 16 + r div 4), byteOf (r mod 4 * 64 + s)]
      | _ \<Rightarrow> None)"

definition decodeLastQuad :: "jschar \<Rightarrow> jschar \<Rightarrow> jschar \<Rightarrow> jschar \<Rightarrow> byte list option" where
  "decodeLastQuad w x y z =
     (if y = 0x3D \<and> z = 0x3D then
        (case (base64Value w, base64Value x) of
           (Some p, Some q) \<Rightarrow> Some [byteOf (p * 4 + q div 16)]
         | _ \<Rightarrow> None)
      else if z = 0x3D then
        (case (base64Value w, base64Value x, base64Value y) of
           (Some p, Some q, Some r) \<Rightarrow> Some [byteOf (p * 4 + q div 16), byteOf (q mod 16 * 16 + r div 4)]
         | _ \<Rightarrow> None)
      else decodeQuad w x y z)"

fun base64DecodeChars :: "jsstring \<Rightarrow> byte list option" where
  "base64DecodeChars [] = Some []"
| "base64DecodeChars [w, x, y, z] = decodeLastQuad w x y z"
| "base64DecodeChars (w # x # y # z # r) =
     (case decodeQuad w x y z of
        None \<Rightarrow> None
      | Some bs \<Rightarrow> (case base64DecodeChars r of None \<Rightarrow> None | Some rest \<Rightarrow> Some (bs @ rest)))"
| "base64DecodeChars _ = None"

definition Utilities_base64Encode :: "jsstring \<Rightarrow> jsstring" where
  "Utilities_base64Encode s = base64EncodeBytes (utf8Encode s)"

definition Utilities_base64Decode :: "jsstring \<Rightarrow> byte list option" where
  "Utilities_base64Decode encoded = base64DecodeChars encoded"

definition getDataAsString :: "byte list \<Rightarrow> jsstring" where
  "getDataAsString bytes = utf8Decode bytes"

section \<open>The token codec\<close>

text \<open>
  The loop shared by \<^verbatim>\<open>xorEncrypt\<close> and \<^verbatim>\<open>xorDecrypt\<close>: unit \<open>i\<close> of the data is
  combined by \<^verbatim>\<open>^\<close> with \<^verbatim>\<open>secretKey.charCodeAt(i % keyLength)\<close>. With an empty key
  the index \<^verbatim>\<open>i % 0\<close> is \<open>NaN\<close>, \<^verbatim>\<open>charCodeAt\<close> returns \<open>NaN\<close>, and \<^verbatim>\<open>x ^ NaN\<close> is \<open>x\<close>:
  the key unit counts as 0.
\<close>

definition keyCharCode :: "jsstring \<Rightarrow> nat \<Rightarrow> jschar" where
  "keyCharCode secretKey i = (if length secretKey = 0 then 0 else secretKey ! (i mod length secretKey))"

definition xorChars :: "jsstring \<Rightarrow> jsstring \<Rightarrow> jsstring" where
  "xorChars data secretKey = map (\<lambda>i. (data ! i) XOR keyCharCode secretKey i) [0..<length data]"

text \<open>
  The secret key argument is \<open>None\<close> for \<^verbatim>\<open>undefined\<close> or \<^verbatim>\<open>null\<close>.
  \<^verbatim>\<open>xorEncrypt\<close> (lines 918-934) refuses a missing or empty key.
\<close>

definition xorEncrypt :: "jsstring \<Rightarrow> jsstring option \<Rightarrow> js_error + jsstring" where
  "xorEncrypt data secretKey =
     (case secretKey of
        None \<Rightarrow> Inl (Error (js ''Secret key is required for encryption''))
      | Some k \<Rightarrow>
          if length k = 0 then Inl (Error (js ''Secret key is required for encryption''))
          else Inr (Utilities_base64Encode (xorChars data k)))"

text \<open>
  \<^verbatim>\<open>xorDecrypt\<close> (lines 974-993) has no such guard: its body runs inside a try whose
  handler replaces whatever was thrown by one \<open>Error\<close>. Reading \<^verbatim>\<open>secretKey.length\<close> of a
  missing key throws a \<open>TypeError\<close> there.
\<close>

definition xorDecrypt :: "jsstring \<Rightarrow> jsstring option \<Rightarrow> js_error + jsstring" where
  "xorDecrypt encryptedData secretKey =
     tryCatch
       (case Utilities_base64Decode encryptedData of
          None \<Rightarrow> Inl (Exception (js ''Could not decode string.''))
        | Some decoded \<Rightarrow>
            (let decodedString = getDataAsString decoded in
             case secretKey of
               None \<Rightarrow> Inl (TypeError (js ''Cannot read properties of undefined (reading 'length')''))
             | Some k \<Rightarrow> Inr (xorChars decodedString k)))
       (\<lambda>error. Inl (Error (js ''Decryption failed: Invalid token'')))"

text \<open>\<^verbatim>\<open>xorDecrypt(xorEncrypt(data, secretKey), secretKey)\<close>, a throw of the inner call passing through.\<close>

definition xorRoundTrip :: "jsstring \<Rightarrow> jsstring option \<Rightarrow> js_error + jsstring" where
  "xorRoundTrip data secretKey =
     (case xorEncrypt data secretKey of Inl e \<Rightarrow> Inl e | Inr token \<Rightarrow> xorDecrypt token secretKey)"

text \<open>
  \<^verbatim>\<open>generateSheetToken\<close> (lines 998-1009). Its inputs from the environment are the global
  \<^verbatim>\<open>ENCRYPTION_CONFIG.secretKey\<close> (a string, empty until configured), the id of the
  spreadsheet and the clock.
\<close>

definition generateSheetToken :: "jsstring \<Rightarrow> jsstring \<Rightarrow> int \<Rightarrow> js_error + jsstring" where
  "generateSheetToken secretKey sheetId now =
     (if secretKey = [] then
        Inl (Error (js ''Secret key is not configured. Cannot generate authentication token.''))
      else
        (let timestamp = now;
             tokenData = sheetId @ js ''|'' @ numberToString timestamp
         in xorEncrypt tokenData (Some secretKey)))"

text \<open>
  \<^verbatim>\<open>validateSheetToken\<close> (lines 1014-1048) returns \<^verbatim>\<open>{isValid: true, sheetId, timestamp}\<close> or
  \<^verbatim>\<open>{isValid: false, error}\<close>.
\<close>

datatype validation = Valid jsstring jsnumber | Invalid jsstring

definition validateSheetToken :: "jsstring \<Rightarrow> int \<Rightarrow> jsstring \<Rightarrow> js_error + validation" where
  "validateSheetToken secretKey currentTime encryptedToken =
     tryCatch
       (if secretKey = [] then Inl (Error (js ''Secret key is not configured. Cannot validate token.''))
        else
          (case xorDecrypt encryptedToken (Some secretKey) of
             Inl e \<Rightarrow> Inl e
           | Inr decryptedData \<Rightarrow>
               (let parts = splitOn 0x7C decryptedData in
                if length parts = 2 then
                  (let sheetId = parts ! 0;
                       timestamp = parseInt (parts ! 1)
                   in if greaterThan (minusNumber currentTime timestamp) 86400000
                      then Inl (Error (js ''Token expired''))
                      else Inr (Valid sheetId timestamp))
                else Inl (Error (js ''Invalid token format'')))))
       (\<lambda>error. Inr (Invalid (errorMessage error)))"

section \<open>JavaScript values\<close>

text \<open>
  The values that \<^verbatim>\<open>JSON.parse\<close> returns and that sheet cells hold. Numbers are
  integral (ids, counts, time stamps); fractional numbers and dates are outside the
  model. An object is the list of its own properties, the first binding of a key
  counting.
\<close>

datatype jsval =
    JUndefined
  | JNull
  | JBool bool
  | JNum int
  | JStr jsstring
  | JArr "jsval list"
  | JObj "(jsstring \<times> jsval) list"

text \<open>Truthiness, as \<^verbatim>\<open>if (x)\<close>, \<^verbatim>\<open>!x\<close>, \<^verbatim>\<open>a || b\<close> and \<^verbatim>\<open>c ? a : b\<close> use it.\<close>

fun truthy :: "jsval \<Rightarrow> bool" where
  "truthy JUndefined = False"
| "truthy JNull = False"
| "truthy (JBool b) = b"
| "truthy (JNum n) = (n \<noteq> 0)"
| "truthy (JStr s) = (s \<noteq> [])"
| "truthy (JArr xs) = True"
| "truthy (JObj kvs) = True"

definition orElse :: "jsval \<Rightarrow> jsval \<Rightarrow> jsval" where
  "orElse a b = (if truthy a then a else b)"

fun isNullish :: "jsval \<Rightarrow> bool" where
  "isNullish JUndefined = True"
| "isNullish JNull = True"
| "isNullish v = False"

fun isArray :: "jsval \<Rightarrow> bool" where
  "isArray (JArr xs) = True"
| "isArray v = False"

fun elements :: "jsval \<Rightarrow> jsval list" where
  "elements (JArr xs) = xs"
| "elements v = []"

text \<open>
  Reading a property. Only the names the source reads matter: those of a parsed object,
  and \<^verbatim>\<open>length\<close> of an array or a string. On \<^verbatim>\<open>null\<close> and \<^verbatim>\<open>undefined\<close> the read
  throws a \<open>TypeError\<close>.
\<close>

fun propOf :: "jsval \<Rightarrow> jsstring \<Rightarrow> jsval" where
  "propOf (JObj kvs) k = (case map_of kvs k of None \<Rightarrow> JUndefined | Some v \<Rightarrow> v)"
| "propOf (JArr xs) k = (if k = js ''length'' then JNum (int (length xs)) else JUndefined)"
| "propOf (JStr s) k = (if k = js ''length'' then JNum (int (length s)) else JUndefined)"
| "propOf v k = JUndefined"

definition getProp :: "jsval \<Rightarrow> jsstring \<Rightarrow> js_error + jsval" where
  "getProp v k =
     (if isNullish v then Inl (TypeError (js ''Cannot read properties of undefined (reading '' @ k @ js '')''))
      else Inr (propOf v k))"

text \<open>
  Conversion to a string, as \<^verbatim>\<open>toString()\<close> and string concatenation do it: an array
  joins its elements with commas, \<^verbatim>\<open>null\<close> and \<^verbatim>\<open>undefined\<close> elements counting as empty.
\<close>

fun joinWith :: "jsstring \<Rightarrow> jsstring list \<Rightarrow> jsstring" where
  "joinWith sep [] = []"
| "joinWith sep [s] = s"
| "joinWith sep (s # t # r) = s @ sep @ joinWith sep (t # r)"

fun toStringJ :: "jsval \<Rightarrow> jsstring" where
  "toStringJ JUndefined = js ''undefined''"
| "toStringJ JNull = js ''null''"
| "toStringJ (JBool b) = (if b then js ''true'' else js ''false'')"
| "toStringJ (JNum n) = numberToString n"
| "toStringJ (JStr s) = s"
| "toStringJ (JArr xs) = joinWith (js '','') (map (\<lambda>x. if isNullish x then [] else toStringJ x) xs)"
| "toStringJ (JObj kvs) = js ''[object Object]''"

text \<open>Indexing an array: beyond the end the result is \<^verbatim>\<open>undefined\<close>.\<close>

definition nthOrUndefined :: "jsval list \<Rightarrow> nat \<Rightarrow> jsval" where
  "nthOrUndefined xs i = (if i < length xs then xs ! i else JUndefined)"

section \<open>The sheet\<close>

text \<open>
  The active sheet is a list of rows of cells; rows and columns are counted from 1 and a
  cell that the lists do not reach is empty (the empty string). A write stores the values
  as the script passed them; the conversion that the platform applies to a stored value,
  the bounds of the sheet, column widths and the counters \<^verbatim>\<open>updated\<close> and \<^verbatim>\<open>new\<close> that
  \<^verbatim>\<open>fetchProducts\<close> discards (with \<^verbatim>\<open>getExistingProductData\<close>, which only feeds them) are
  outside the model.
\<close>

type_synonym grid = "jsval list list"

definition cellAt :: "grid \<Rightarrow> nat \<Rightarrow> nat \<Rightarrow> jsval" where
  "cellAt g r c =
     (if 1 \<le> r \<and> r \<le> length g \<and> 1 \<le> c \<and> c \<le> length (g ! (r - 1)) then g ! (r - 1) ! (c - 1)
      else JStr [])"

definition getValues :: "grid \<Rightarrow> nat \<Rightarrow> nat \<Rightarrow> nat \<Rightarrow> nat \<Rightarrow> jsval list list" where
  "getValues g row col numRows numCols =
     map (\<lambda>r. map (\<lambda>c. cellAt g r c) [col..<col + numCols]) [row..<row + numRows]"

text \<open>
  A write to the block of \<open>numRows\<close> by \<open>numCols\<close> cells at \<open>(row, col)\<close>; the lists
  grow to hold it. \<^verbatim>\<open>setValues\<close> writes the given rows (the source always passes rows of
  the block's size), \<^verbatim>\<open>clearContent\<close> writes empty cells.
\<close>

definition gridWidth :: "grid \<Rightarrow> nat" where
  "gridWidth g = foldr max (map length g) 0"

definition writeRange :: "grid \<Rightarrow> nat \<Rightarrow> nat \<Rightarrow> nat \<Rightarrow> nat \<Rightarrow> (nat \<Rightarrow> nat \<Rightarrow> jsval) \<Rightarrow> grid" where
  "writeRange g row col numRows numCols f =
     map (\<lambda>r. map (\<lambda>c. if row \<le> r \<and> r < row + numRows \<and> col \<le> c \<and> c < col + numCols
                         then f (r - row) (c - col) else cellAt g r c)
              [1..<max (gridWidth g) (col + numCols - 1) + 1])
         [1..<max (length g) (row + numRows - 1) + 1]"

definition setValues :: "grid \<Rightarrow> nat \<Rightarrow> nat \<Rightarrow> nat \<Rightarrow> nat \<Rightarrow> jsval list list \<Rightarrow> grid" where
  "setValues g row col numRows numCols vals = writeRange g row col numRows numCols (\<lambda>i j. vals ! i ! j)"

definition clearContent :: "grid \<Rightarrow> nat \<Rightarrow> nat \<Rightarrow> nat \<Rightarrow> nat \<Rightarrow> grid" where
  "clearContent g row col numRows numCols = writeRange g row col numRows numCols (\<lambda>i j. JStr [])"

text \<open>
  \<^verbatim>\<open>getLastRow\<close> and \<^verbatim>\<open>getLastColumn\<close>: the last row and column with content, 0 for an
  empty sheet. \<^verbatim>\<open>getDataRange().getValues()\<close> spans row 1, column 1 to these, and at least
  one cell.
\<close>

definition lastFilled :: "jsval list \<Rightarrow> nat" where
  "lastFilled cells =
     (case filter (\<lambda>c. cells ! (c - 1) \<noteq> JStr []) [1..<length cells + 1] of [] \<Rightarrow> 0 | c # cs \<Rightarrow> last (c # cs))"

definition getLastRow :: "grid \<Rightarrow> nat" where
  "getLastRow g =
     (case filter (\<lambda>r. lastFilled (g ! (r - 1)) \<noteq> 0) [1..<length g + 1] of [] \<Rightarrow> 0 | r # rs \<Rightarrow> last (r # rs))"

definition getLastColumn :: "grid \<Rightarrow> nat" where
  "getLastColumn g = foldr max (map lastFilled g) 0"

definition getDataRangeValues :: "grid \<Rightarrow> jsval list list" where
  "getDataRangeValues g = getValues g 1 1 (max 1 (getLastRow g)) (max 1 (getLastColumn g))"

section \<open>State and environment\<close>

text \<open>
  The state that the operations read and write: the active sheet, the user properties
  (\<^verbatim>\<open>WP_BASE_URL\<close>, \<^verbatim>\<open>WP_SECRET_KEY\<close>), the document properties (\<^verbatim>\<open>STORED_PRODUCT_IDS\<close>) and
  the global \<^verbatim>\<open>ENCRYPTION_CONFIG.secretKey\<close>. The environment of one invocation: the
  spreadsheet id, the clock, the remote server behind \<^verbatim>\<open>UrlFetchApp.fetch\<close> (which may
  throw), \<^verbatim>\<open>JSON.parse\<close> (which may throw) and \<^verbatim>\<open>JSON.stringify\<close>, and the rows of the
  active range. Of a request the model keeps the URL, the method, the token of the two
  authentication headers and the payload. Writing to the log is left out.
\<close>

record sheet =
  cells :: grid
  headerBold :: bool
  frozenRows :: nat

record state =
  activeSheet :: sheet
  userProperties :: "jsstring \<Rightarrow> jsstring option"
  documentProperties :: "jsstring \<Rightarrow> jsstring option"
  ENCRYPTION_CONFIG_secretKey :: jsstring

record request =
  reqUrl :: jsstring
  reqMethod :: jsstring
  reqToken :: jsstring
  reqPayload :: "jsstring option"

record response =
  responseCode :: int
  contentText :: jsstring

record env =
  spreadsheetId :: jsstring
  clock :: int
  UrlFetchApp_fetch :: "request \<Rightarrow> js_error + response"
  JSON_parse :: "jsstring \<Rightarrow> js_error + jsval"
  JSON_stringify :: "jsval \<Rightarrow> jsstring"
  activeRangeRow :: nat
  activeRangeLastRow :: nat

record config =
  baseUrl :: jsstring
  secretKey :: jsstring
  isConfigured :: bool

text \<open>
  What the operations return: \<^verbatim>\<open>{success: true, message, count, url}\<close> for a fetch and
  \<^verbatim>\<open>{success: true, message, updatedCount, deletedCount}\<close> for a push, or
  \<^verbatim>\<open>{success: false, message}\<close>.
\<close>

datatype fetch_result = FetchSuccess jsstring int jsstring | FetchFailure jsstring

datatype push_result = PushSuccess jsval jsval jsval | PushFailure jsstring

text \<open>A try/catch around a body that changes the state: the changes made before a throw stay.\<close>

definition tryCatchS ::
  "(js_error + 'a) \<times> 's \<Rightarrow> (js_error \<Rightarrow> 's \<Rightarrow> (js_error + 'a) \<times> 's) \<Rightarrow> (js_error + 'a) \<times> 's" where
  "tryCatchS body handler = (case body of (Inl e, s) \<Rightarrow> handler e s | (Inr v, s) \<Rightarrow> (Inr v, s))"

definition WP_API_CONFIG_namespace :: jsstring where
  "WP_API_CONFIG_namespace = js ''sheets-api/v1''"

definition endpoints_getProducts :: jsstring where
  "endpoints_getProducts = js ''/get_products''"

definition endpoints_updateProducts :: jsstring where
  "endpoints_updateProducts = js ''/update_products''"

definition SHEET_CONFIG_headers :: "jsstring list" where
  "SHEET_CONFIG_headers =
     [js ''Product ID'', js ''Type'', js ''Parent ID'', js ''Name'', js ''SKU'', js ''Attributes'',
      js ''Regular Price'', js ''Sale Price'', js ''Stock'', js ''Status'']"

definition SHEET_CONFIG_keyColumn :: nat where
  "SHEET_CONFIG_keyColumn = 0"

section \<open>The catalog sync engine\<close>

text \<open>
  \<^verbatim>\<open>getConfig\<close> and \<^verbatim>\<open>validateSecretKey\<close> (lines 531-557). A property that is not set reads
  as \<^verbatim>\<open>null\<close>.
\<close>

definition propertyTruthy :: "jsstring option \<Rightarrow> bool" where
  "propertyTruthy p = (case p of None \<Rightarrow> False | Some s \<Rightarrow> s \<noteq> [])"

definition propertyOrEmpty :: "jsstring option \<Rightarrow> jsstring" where
  "propertyOrEmpty p = (case p of None \<Rightarrow> [] | Some s \<Rightarrow> s)"

definition getConfig :: "state \<Rightarrow> config \<times> state" where
  "getConfig st =
     (let baseUrlP = userProperties st (js ''WP_BASE_URL'');
          secretKeyP = userProperties st (js ''WP_SECRET_KEY'');
          st1 = (if propertyTruthy secretKeyP
                 then st\<lparr>ENCRYPTION_CONFIG_secretKey := propertyOrEmpty secretKeyP\<rparr> else st)
      in (\<lparr>baseUrl = propertyOrEmpty baseUrlP,
           secretKey = propertyOrEmpty secretKeyP,
           isConfigured = (propertyTruthy baseUrlP \<and> propertyTruthy secretKeyP)\<rparr>, st1))"

definition validateSecretKey :: "state \<Rightarrow> (js_error + bool) \<times> state" where
  "validateSecretKey st =
     (case getConfig st of
        (cfg, st1) \<Rightarrow>
          if secretKey cfg = [] then
            (Inl (Error (js ''Secret key is not configured. Please set up your secret key in Settings before using this feature.'')), st1)
          else (Inr True, st1))"

text \<open>\<^verbatim>\<open>setupSheetHeaders\<close> (lines 641-661).\<close>

definition setupSheetHeaders :: "sheet \<Rightarrow> sheet" where
  "setupSheetHeaders sh =
     (let firstRow = getValues (cells sh) 1 1 1 (length SHEET_CONFIG_headers) ! 0;
          hasCorrectHeaders = (firstRow = map JStr SHEET_CONFIG_headers)
      in if hasCorrectHeaders then sh
         else sh\<lparr>cells := setValues (cells sh) 1 1 1 (length SHEET_CONFIG_headers) [map JStr SHEET_CONFIG_headers],
                 headerBold := True,
                 frozenRows := 1\<rparr>)"

text \<open>
  The row that \<^verbatim>\<open>updateSheetWithProducts\<close> builds for one product, in the column order of
  the header. Reading a property of \<^verbatim>\<open>null\<close> or \<^verbatim>\<open>undefined\<close> throws.
\<close>

definition rowData :: "jsval \<Rightarrow> jsval list" where
  "rowData product =
     [propOf product (js ''id''),
      orElse (orElse (propOf product (js ''type'')) (propOf product (js ''product_type''))) (JStr (js ''simple'')),
      orElse (propOf product (js ''parent_id'')) (JStr []),
      propOf product (js ''name''),
      propOf product (js ''sku''),
      propOf product (js ''attributes''),
      propOf product (js ''regular_price''),
      propOf product (js ''sale_price''),
      orElse (propOf product (js ''stock_quantity'')) (propOf product (js ''stock'')),
      orElse (orElse (propOf product (js ''status'')) (propOf product (js ''stock_status''))) (JStr (js ''instock''))]"

definition productRow :: "jsval \<Rightarrow> js_error + jsval list" where
  "productRow product =
     (case getProp product (js ''id'') of Inl e \<Rightarrow> Inl e | Inr productId \<Rightarrow> Inr (rowData product))"

text \<open>The \<^verbatim>\<open>forEach\<close> over the products: it stops at the first throw.\<close>

fun productRows :: "jsval list \<Rightarrow> js_error + jsval list list" where
  "productRows [] = Inr []"
| "productRows (product # rest) =
     (case productRow product of
        Inl e \<Rightarrow> Inl e
      | Inr cellsOfRow \<Rightarrow>
          (case productRows rest of Inl e \<Rightarrow> Inl e | Inr newData \<Rightarrow> Inr (cellsOfRow # newData)))"

text \<open>
  \<^verbatim>\<open>updateSheetWithProducts\<close> (lines 707-760): the old rows are cleared first, then the new
  rows are built, then written in one block from row 2.
\<close>

definition updateSheetWithProducts :: "sheet \<Rightarrow> jsval list \<Rightarrow> (js_error + nat) \<times> sheet" where
  "updateSheetWithProducts sh products =
     (let sh1 = (if getLastRow (cells sh) > 1
                 then sh\<lparr>cells := clearContent (cells sh) 2 1 (getLastRow (cells sh) - 1) (length SHEET_CONFIG_headers)\<rparr>
                 else sh)
      in case productRows products of
           Inl e \<Rightarrow> (Inl e, sh1)
         | Inr newData \<Rightarrow>
             if length newData > 0
             then (Inr (length newData),
                   sh1\<lparr>cells := setValues (cells sh1) 2 1 (length newData) (length SHEET_CONFIG_headers) newData\<rparr>)
             else (Inr (length newData), sh1))"

text \<open>
  The deletion tracker (lines 1060-1109). Both functions collect the ids of the sheet with
  the same loop: the first cell of every row below the header, when truthy, as a string.
\<close>

definition sheetProductIds :: "grid \<Rightarrow> jsstring list" where
  "sheetProductIds g =
     map (\<lambda>r. toStringJ (nthOrUndefined r SHEET_CONFIG_keyColumn))
       (filter (\<lambda>r. truthy (nthOrUndefined r SHEET_CONFIG_keyColumn)) (drop 1 (getDataRangeValues g)))"

definition storeCurrentProductIds :: "env \<Rightarrow> state \<Rightarrow> jsstring list \<times> state" where
  "storeCurrentProductIds ev st =
     (let currentIds = sheetProductIds (cells (activeSheet st))
      in (currentIds,
          st\<lparr>documentProperties := (documentProperties st)
                (js ''STORED_PRODUCT_IDS'' \<mapsto> JSON_stringify ev (JArr (map JStr currentIds)))\<rparr>))"

definition getDeletedProductIds :: "env \<Rightarrow> state \<Rightarrow> js_error + jsval list" where
  "getDeletedProductIds ev st =
     (let currentIds = sheetProductIds (cells (activeSheet st));
          storedIdsJson = documentProperties st (js ''STORED_PRODUCT_IDS'')
      in if propertyTruthy storedIdsJson then
           (case JSON_parse ev (propertyOrEmpty storedIdsJson) of
              Inl e \<Rightarrow> Inl e
            | Inr storedIds \<Rightarrow>
                if isArray storedIds
                then Inr (filter (\<lambda>i. i \<notin> set (map JStr currentIds)) (elements storedIds))
                else Inl (TypeError (js ''storedIds.filter is not a function'')))
         else Inr [])"

text \<open>\<^verbatim>\<open>fetchProducts\<close> (lines 562-636), in the order of its statements.\<close>

definition fetchProducts_write :: "env \<Rightarrow> state \<Rightarrow> jsstring \<Rightarrow> jsval \<Rightarrow> (js_error + fetch_result) \<times> state" where
  "fetchProducts_write ev st fetchUrl products =
     (if truthy products \<and> isArray products then
        (case updateSheetWithProducts (activeSheet st) (rev (elements products)) of
           (Inl e, sh) \<Rightarrow> (Inl e, st\<lparr>activeSheet := sh\<rparr>)
         | (Inr written, sh) \<Rightarrow>
             (Inr (FetchSuccess
                    (js ''Successfully fetched '' @ numberToString (int (length (elements products)))
                       @ js '' products'')
                    (int (length (elements products)))
                    fetchUrl),
              snd (storeCurrentProductIds ev (st\<lparr>activeSheet := sh\<rparr>))))
      else (Inl (Error (js ''Invalid response format from API'')), st))"

definition fetchProducts_response :: "env \<Rightarrow> state \<Rightarrow> jsstring \<Rightarrow> response \<Rightarrow> (js_error + fetch_result) \<times> state" where
  "fetchProducts_response ev st fetchUrl resp =
     (if responseCode resp = 200 then
        (case JSON_parse ev (contentText resp) of
           Inl e \<Rightarrow> (Inl e, st)
         | Inr result \<Rightarrow>
             (case getProp result (js ''data'') of
                Inl e \<Rightarrow> (Inl e, st)
              | Inr products \<Rightarrow> fetchProducts_write ev st fetchUrl products))
      else (Inl (Error (js ''API Error: '' @ contentText resp @ js '' (URL: '' @ fetchUrl @ js '')'')), st))"

definition fetchProducts_request :: "env \<Rightarrow> state \<Rightarrow> config \<Rightarrow> (js_error + fetch_result) \<times> state" where
  "fetchProducts_request ev st cfg =
     (let st1 = st\<lparr>activeSheet := setupSheetHeaders (activeSheet st)\<rparr> in
      case generateSheetToken (ENCRYPTION_CONFIG_secretKey st1) (spreadsheetId ev) (clock ev) of
        Inl e \<Rightarrow> (Inl e, st1)
      | Inr tok \<Rightarrow>
          (let fetchUrl = baseUrl cfg @ js ''/wp-json/'' @ WP_API_CONFIG_namespace @ endpoints_getProducts in
           case UrlFetchApp_fetch ev
                  \<lparr>reqUrl = fetchUrl, reqMethod = js ''GET'', reqToken = tok, reqPayload = None\<rparr> of
             Inl e \<Rightarrow> (Inl e, st1)
           | Inr resp \<Rightarrow> fetchProducts_response ev st1 fetchUrl resp))"

definition fetchProducts_try :: "env \<Rightarrow> state \<Rightarrow> (js_error + fetch_result) \<times> state" where
  "fetchProducts_try ev st =
     (case getConfig st of
        (cfg, st1) \<Rightarrow>
          if isConfigured cfg then
            (case validateSecretKey st1 of
               (Inl e, st2) \<Rightarrow> (Inl e, st2)
             | (Inr ok, st2) \<Rightarrow>
                 (case validateSecretKey st2 of
                    (Inl e, st3) \<Rightarrow> (Inl e, st3)
                  | (Inr ok2, st3) \<Rightarrow> fetchProducts_request ev st3 cfg))
          else (Inl (Error (js ''Please configure the WordPress API URL and secret key first in Settings.'')), st1))"

definition fetchProducts :: "env \<Rightarrow> state \<Rightarrow> (js_error + fetch_result) \<times> state" where
  "fetchProducts ev st =
     tryCatchS (fetchProducts_try ev st) (\<lambda>error s. (Inr (FetchFailure (errorToString error)), s))"

text \<open>The push operations (lines 765-913).\<close>

type_synonym product_row = "nat \<times> jsval list"

definition getSelectedProductRows :: "env \<Rightarrow> sheet \<Rightarrow> product_row list" where
  "getSelectedProductRows ev sh =
     (let rows = getDataRangeValues (cells sh) in
      map (\<lambda>i. (i, rows ! (i - 1)))
        (filter (\<lambda>i. i > 1 \<and> i \<le> length rows) [activeRangeRow ev..<activeRangeLastRow ev + 1]))"

definition getAllProductRows :: "sheet \<Rightarrow> product_row list" where
  "getAllProductRows sh =
     (let rows = getDataRangeValues (cells sh) in
      map (\<lambda>i. (i + 1, rows ! i)) [1..<length rows])"

definition rowProduct :: "product_row \<Rightarrow> jsval" where
  "rowProduct r =
     JObj [(js ''id'', nthOrUndefined (snd r) 0),
           (js ''type'', nthOrUndefined (snd r) 1),
           (js ''parent_id'', nthOrUndefined (snd r) 2),
           (js ''name'', nthOrUndefined (snd r) 3),
           (js ''sku'', nthOrUndefined (snd r) 4),
           (js ''attributes'', nthOrUndefined (snd r) 5),
           (js ''regular_price'', nthOrUndefined (snd r) 6),
           (js ''sale_price'', nthOrUndefined (snd r) 7),
           (js ''stock_quantity'', nthOrUndefined (snd r) 8),
           (js ''status'', nthOrUndefined (snd r) 9)]"

definition lengthOrZero :: "jsval \<Rightarrow> jsval" where
  "lengthOrZero v = (if truthy v then propOf v (js ''length'') else JNum 0)"

definition updateProducts_result :: "env \<Rightarrow> state \<Rightarrow> response \<Rightarrow> (js_error + push_result) \<times> state" where
  "updateProducts_result ev st resp =
     (case JSON_parse ev (contentText resp) of
        Inl e \<Rightarrow> (Inl e, st)
      | Inr result \<Rightarrow>
          (case getProp result (js ''message'') of
             Inl e \<Rightarrow> (Inl e, st)
           | Inr msg \<Rightarrow>
               (case getProp (propOf result (js ''data'')) (js ''updated'') of
                  Inl e \<Rightarrow> (Inl e, st)
                | Inr updated \<Rightarrow>
                    (case getProp (propOf result (js ''data'')) (js ''deleted'') of
                       Inl e \<Rightarrow> (Inl e, st)
                     | Inr deleted \<Rightarrow>
                         (Inr (PushSuccess (orElse msg (JStr (js ''Products updated successfully'')))
                                (lengthOrZero updated) (lengthOrZero deleted)), st)))))"

definition updateProducts_response :: "env \<Rightarrow> state \<Rightarrow> response \<Rightarrow> (js_error + push_result) \<times> state" where
  "updateProducts_response ev st resp =
     (if responseCode resp = 200 then
        (let st1 = st\<lparr>documentProperties := (documentProperties st)(js ''STORED_PRODUCT_IDS'' := None)\<rparr>;
             st2 = snd (fetchProducts ev st1)
         in updateProducts_result ev st2 resp)
      else
        (case JSON_parse ev (contentText resp) of
           Inl e \<Rightarrow> (Inl e, st)
         | Inr errorResponse \<Rightarrow>
             (case getProp errorResponse (js ''message'') of
                Inl e \<Rightarrow> (Inl e, st)
              | Inr msg \<Rightarrow>
                  (Inl (Error (js ''API Error: '' @ toStringJ (orElse msg (JStr (contentText resp))))), st))))"

definition updateProductsToWordPress_try ::
  "env \<Rightarrow> state \<Rightarrow> product_row list \<Rightarrow> jsval list option \<Rightarrow> (js_error + push_result) \<times> state" where
  "updateProductsToWordPress_try ev st productRowsArg deletedIds =
     (case getConfig st of
        (cfg, st1) \<Rightarrow>
          if isConfigured cfg then
            (case validateSecretKey st1 of
               (Inl e, st2) \<Rightarrow> (Inl e, st2)
             | (Inr ok, st2) \<Rightarrow>
                 (let productsData = map rowProduct productRowsArg in
                  case generateSheetToken (ENCRYPTION_CONFIG_secretKey st2) (spreadsheetId ev) (clock ev) of
                    Inl e \<Rightarrow> (Inl e, st2)
                  | Inr tok \<Rightarrow>
                      (let payload = JObj [(js ''products'', JArr productsData),
                                           (js ''deleted_ids'', JArr (case deletedIds of None \<Rightarrow> [] | Some ids \<Rightarrow> ids))]
                       in case UrlFetchApp_fetch ev
                                 \<lparr>reqUrl = baseUrl cfg @ js ''/wp-json/'' @ WP_API_CONFIG_namespace @ endpoints_updateProducts,
                                  reqMethod = js ''POST'', reqToken = tok,
                                  reqPayload = Some (JSON_stringify ev payload)\<rparr> of
                            Inl e \<Rightarrow> (Inl e, st2)
                          | Inr resp \<Rightarrow> updateProducts_response ev st2 resp)))
          else (Inl (Error (js ''Please configure the WordPress API URL and secret key first in Settings.'')), st1))"

definition updateProductsToWordPress ::
  "env \<Rightarrow> state \<Rightarrow> product_row list \<Rightarrow> jsval list option \<Rightarrow> (js_error + push_result) \<times> state" where
  "updateProductsToWordPress ev st productRowsArg deletedIds =
     tryCatchS (updateProductsToWordPress_try ev st productRowsArg deletedIds)
       (\<lambda>error s. (Inr (PushFailure (errorToString error)), s))"

definition updateSelectedProducts :: "env \<Rightarrow> state \<Rightarrow> (js_error + push_result) \<times> state" where
  "updateSelectedProducts ev st =
     (let selectedRows = getSelectedProductRows ev (activeSheet st) in
      if length selectedRows = 0 then
        (Inl (Error (js ''Please select at least one product row to update.'')), st)
      else
        (case getDeletedProductIds ev st of
           Inl e \<Rightarrow> (Inl e, st)
         | Inr deletedIds \<Rightarrow> updateProductsToWordPress ev st selectedRows (Some deletedIds)))"

definition updateAllProducts :: "env \<Rightarrow> state \<Rightarrow> (js_error + push_result) \<times> state" where
  "updateAllProducts ev st =
     (let allRows = getAllProductRows (activeSheet st) in
      if length allRows = 0 then
        (Inl (Error (js ''No products found in the sheet. Please fetch products first.'')), st)
      else
        (case getDeletedProductIds ev st of
           Inl e \<Rightarrow> (Inl e, st)
         | Inr deletedIds \<Rightarrow> updateProductsToWordPress ev st allRows (Some deletedIds)))"

section \<open>An example environment\<close>

text \<open>
  A concrete server, parser and workspace on which the operations are run in the
  examples below. The remote catalog holds the products 1, 2 and 3; the sheet shows 1
  and 3 under the header; the stored snapshot is \<^verbatim>\<open>["1","2","3"]\<close>. The server answers a
  POST with a body that has a message and no \<^verbatim>\<open>data\<close> field.
\<close>

definition jsonQuoted :: "string \<Rightarrow> jsstring" where
  "jsonQuoted s = 0x22 # js s @ [0x22]"

definition exampleStoredIds :: jsstring where
  "exampleStoredIds =
     js ''['' @ jsonQuoted ''1'' @ js '','' @ jsonQuoted ''2'' @ js '','' @ jsonQuoted ''3'' @ js '']''"

definition exampleCatalog :: jsstring where
  "exampleCatalog =
     js ''{'' @ jsonQuoted ''data'' @ js '':[{'' @ jsonQuoted ''id'' @ js '':1},{'' @ jsonQuoted ''id''
       @ js '':2},{'' @ jsonQuoted ''id'' @ js '':3}]}''"

definition exampleAck :: jsstring where
  "exampleAck = js ''{'' @ jsonQuoted ''message'' @ js '':'' @ jsonQuoted ''ok'' @ js ''}''"

definition exampleParse :: "jsstring \<Rightarrow> js_error + jsval" where
  "exampleParse t =
     (if t = exampleCatalog then
        Inr (JObj [(js ''data'', JArr [JObj [(js ''id'', JNum 1)], JObj [(js ''id'', JNum 2)],
                                       JObj [(js ''id'', JNum 3)]])])
      else if t = exampleStoredIds then Inr (JArr [JStr (js ''1''), JStr (js ''2''), JStr (js ''3'')])
      else if t = exampleAck then Inr (JObj [(js ''message'', JStr (js ''ok''))])
      else Inl (SyntaxError (js ''Unexpected token'')))"

definition exampleStringify :: "jsval \<Rightarrow> jsstring" where
  "exampleStringify v =
     (case v of
        JArr xs \<Rightarrow>
          js ''['' @ joinWith (js '','')
                      (map (\<lambda>x. case x of JStr s \<Rightarrow> 0x22 # s @ [0x22] | _ \<Rightarrow> toStringJ x) xs) @ js '']''
      | _ \<Rightarrow> js ''{}'')"

definition exampleServer :: "request \<Rightarrow> js_error + response" where
  "exampleServer req =
     (if reqMethod req = js ''POST'' then Inr \<lparr>responseCode = 200, contentText = exampleAck\<rparr>
      else Inr \<lparr>responseCode = 200, contentText = exampleCatalog\<rparr>)"

definition exampleEnv :: env where
  "exampleEnv =
     \<lparr>spreadsheetId = js ''S'', clock = 1000, UrlFetchApp_fetch = exampleServer,
      JSON_parse = exampleParse, JSON_stringify = exampleStringify,
      activeRangeRow = 1, activeRangeLastRow = 1\<rparr>"

definition exampleState :: state where
  "exampleState =
     \<lparr>activeSheet = \<lparr>cells = [map JStr SHEET_CONFIG_headers, [JNum 1], [JNum 3]],
                      headerBold = True, frozenRows = 1\<rparr>,
      userProperties = [js ''WP_BASE_URL'' \<mapsto> js ''https://shop.example'', js ''WP_SECRET_KEY'' \<mapsto> js ''k''],
      documentProperties = [js ''STORED_PRODUCT_IDS'' \<mapsto> exampleStoredIds],
      ENCRYPTION_CONFIG_secretKey = []\<rparr>"

section \<open>Facts about the text codec\<close>

lemma unat_fromCharCode: "n < 65536 \<Longrightarrow> unat (fromCharCode n) = n"
  by (simp add: fromCharCode_def unat_of_nat)

lemma fromCharCode_unat: "fromCharCode (unat c) = c"
  by (simp add: fromCharCode_def)

lemma unat_byteOf: "n < 256 \<Longrightarrow> unat (byteOf n) = n"
  by (simp add: byteOf_def unat_of_nat)

lemma byteOf_unat: "byteOf (unat b) = b"
  by (simp add: byteOf_def)

lemma unat_byte_less: "unat (b :: byte) < 256"
  using unsigned_less [of b, where ?'a = nat] by simp

lemma unat_jschar_less: "unat (c :: jschar) < 65536"
  using unsigned_less [of c, where ?'a = nat] by simp

subsection \<open>Base64 decoding inverts encoding\<close>

lemma base64Code_less: "base64Code n < 65536"
  by (auto simp add: base64Code_def)

lemma unat_base64Char: "unat (base64Char n) = base64Code n"
  by (simp add: base64Char_def unat_fromCharCode base64Code_less)

lemma base64Value_Char: "n < 64 \<Longrightarrow> base64Value (base64Char n) = Some n"
  unfolding base64Value_def unat_base64Char base64Code_def Let_def by (simp; arith)

lemma base64Char_not_pad: "base64Char n \<noteq> 0x3D"
proof
  assume "base64Char n = 0x3D"
  then have "unat (base64Char n) = unat (0x3D :: jschar)" by simp
  then show False unfolding unat_base64Char base64Code_def by (simp split: if_splits; arith)
qed

lemma div_mult_add_small: "r < k \<Longrightarrow> (q * k + r) div k = (q::nat)"
  by simp

lemma mod_mult_add_small: "r < k \<Longrightarrow> (q * k + r) mod k = (r::nat)"
  by simp

lemma byte_div4: "unat (a::byte) div 4 < 64"
  using unat_byte_less [of a] by simp

lemma byte_div16: "unat (a::byte) div 16 < 16"
  using unat_byte_less [of a] by simp

lemma byte_div64: "unat (a::byte) div 64 < 4"
  using unat_byte_less [of a] by simp

lemma sextet2: "x mod 4 * 16 + unat (b::byte) div 16 < (64::nat)"
proof -
  have "x mod 4 \<le> 3" by simp
  then have "x mod 4 * 16 \<le> 48" by simp
  with byte_div16 [of b] show ?thesis by linarith
qed

lemma sextet3: "x mod 16 * 4 + unat (c::byte) div 64 < (64::nat)"
proof -
  have "x mod 16 \<le> 15" by simp
  then have "x mod 16 * 4 \<le> 60" by simp
  with byte_div64 [of c] show ?thesis by linarith
qed

lemma decodeQuad_enc:
  fixes a b c :: byte
  shows "decodeQuad (base64Char (unat a div 4)) (base64Char (unat a mod 4 * 16 + unat b div 16))
      (base64Char (unat b mod 16 * 4 + unat c div 64)) (base64Char (unat c mod 64)) = Some [a, b, c]"
proof -
  have m1: "(unat a mod 4 * 16 + unat b div 16) div 16 = unat a mod 4"
    by (rule div_mult_add_small [OF byte_div16])
  have m2: "(unat a mod 4 * 16 + unat b div 16) mod 16 = unat b div 16"
    by (rule mod_mult_add_small [OF byte_div16])
  have m3: "(unat b mod 16 * 4 + unat c div 64) div 4 = unat b mod 16"
    by (rule div_mult_add_small [OF byte_div64])
  have m4: "(unat b mod 16 * 4 + unat c div 64) mod 4 = unat c div 64"
    by (rule mod_mult_add_small [OF byte_div64])
  have e1: "unat a div 4 * 4 + (unat a mod 4 * 16 + unat b div 16) div 16 = unat a"
    unfolding m1 by simp
  have e2: "(unat a mod 4 * 16 + unat b div 16) mod 16 * 16 + (unat b mod 16 * 4 + unat c div 64) div 4 = unat b"
    unfolding m2 m3 by simp
  have e3: "(unat b mod 16 * 4 + unat c div 64) mod 4 * 64 + unat c mod 64 = unat c"
    unfolding m4 by simp
  have v1: "base64Value (base64Char (unat a div 4)) = Some (unat a div 4)"
    by (rule base64Value_Char [OF byte_div4])
  have v2: "base64Value (base64Char (unat a mod 4 * 16 + unat b div 16)) = Some (unat a mod 4 * 16 + unat b div 16)"
    by (rule base64Value_Char [OF sextet2])
  have v3: "base64Value (base64Char (unat b mod 16 * 4 + unat c div 64)) = Some (unat b mod 16 * 4 + unat c div 64)"
    by (rule base64Value_Char [OF sextet3])
  have v4: "base64Value (base64Char (unat c mod 64)) = Some (unat c mod 64)"
    by (rule base64Value_Char) simp
  show ?thesis
    unfolding decodeQuad_def v1 v2 v3 v4 by (simp only: e1 e2 e3 byteOf_unat prod.case option.case)
qed

lemma decodeLastQuad_enc3:
  fixes a b c :: byte
  shows "decodeLastQuad (base64Char (unat a div 4)) (base64Char (unat a mod 4 * 16 + unat b div 16))
      (base64Char (unat b mod 16 * 4 + unat c div 64)) (base64Char (unat c mod 64)) = Some [a, b, c]"
  by (simp add: decodeLastQuad_def base64Char_not_pad decodeQuad_enc)

lemma decodeLastQuad_enc2:
  fixes a b :: byte
  shows "decodeLastQuad (base64Char (unat a div 4)) (base64Char (unat a mod 4 * 16 + unat b div 16))
      (base64Char (unat b mod 16 * 4)) 0x3D = Some [a, b]"
proof -
  have m1: "(unat a mod 4 * 16 + unat b div 16) div 16 = unat a mod 4"
    by (rule div_mult_add_small [OF byte_div16])
  have m2: "(unat a mod 4 * 16 + unat b div 16) mod 16 = unat b div 16"
    by (rule mod_mult_add_small [OF byte_div16])
  have e1: "unat a div 4 * 4 + (unat a mod 4 * 16 + unat b div 16) div 16 = unat a"
    unfolding m1 by simp
  have e2: "(unat a mod 4 * 16 + unat b div 16) mod 16 * 16 + unat b mod 16 * 4 div 4 = unat b"
    unfolding m2 by simp
  have s3: "unat b mod 16 * 4 < 64"
    using sextet3 [of "unat b" 0] by simp
  have v1: "base64Value (base64Char (unat a div 4)) = Some (unat a div 4)"
    by (rule base64Value_Char [OF byte_div4])
  have v2: "base64Value (base64Char (unat a mod 4 * 16 + unat b div 16)) = Some (unat a mod 4 * 16 + unat b div 16)"
    by (rule base64Value_Char [OF sextet2])
  have v3: "base64Value (base64Char (unat b mod 16 * 4)) = Some (unat b mod 16 * 4)"
    by (rule base64Value_Char [OF s3])
  have np: "(base64Char (unat b mod 16 * 4) = 0x3D \<and> (0x3D :: jschar) = 0x3D) = False"
    by (simp add: base64Char_not_pad)
  show ?thesis
    unfolding decodeLastQuad_def np v1 v2 v3
    by (simp only: e1 e2 byteOf_unat prod.case option.case if_False if_True refl)
qed

lemma decodeLastQuad_enc1:
  fixes a :: byte
  shows "decodeLastQuad (base64Char (unat a div 4)) (base64Char (unat a mod 4 * 16)) 0x3D 0x3D = Some [a]"
proof -
  have s2: "unat a mod 4 * 16 < 64"
    using sextet2 [of "unat a" 0] by simp
  have e1: "unat a div 4 * 4 + unat a mod 4 * 16 div 16 = unat a"
    by simp
  have v1: "base64Value (base64Char (unat a div 4)) = Some (unat a div 4)"
    by (rule base64Value_Char [OF byte_div4])
  have v2: "base64Value (base64Char (unat a mod 4 * 16)) = Some (unat a mod 4 * 16)"
    by (rule base64Value_Char [OF s2])
  show ?thesis
    unfolding decodeLastQuad_def v1 v2
    by (simp only: e1 byteOf_unat prod.case option.case if_True simp_thms)
qed

lemma base64EncodeBytes_Nil_iff: "base64EncodeBytes bs = [] \<longleftrightarrow> bs = []"
  by (cases bs rule: base64EncodeBytes.cases) simp_all

lemma base64_roundtrip: "base64DecodeChars (base64EncodeBytes bs) = Some bs"
proof (induction bs rule: base64EncodeBytes.induct)
  case 1
  show ?case by simp
next
  case (2 a)
  show ?case by (simp add: decodeLastQuad_enc1)
next
  case (3 a b)
  show ?case by (simp add: decodeLastQuad_enc2)
next
  case (4 a b c r)
  show ?case
  proof (cases "base64EncodeBytes r")
    case Nil
    then have "r = []" by (simp add: base64EncodeBytes_Nil_iff)
    then show ?thesis by (simp add: decodeLastQuad_enc3)
  next
    case (Cons x xs)
    with 4 show ?thesis by (simp add: decodeQuad_enc)
  qed
qed

subsection \<open>UTF-8 decoding inverts encoding on well-formed strings\<close>

lemma split_sextets3: "n div 4096 * 4096 + n div 64 mod 64 * 64 + n mod 64 = (n::nat)"
proof -
  define m where "m = n div 64"
  have "n div 4096 = m div 64"
    by (simp add: m_def div_mult2_eq [symmetric])
  moreover have "m div 64 * 4096 + m mod 64 * 64 = m * 64"
  proof -
    have "m div 64 * 4096 + m mod 64 * 64 = (m div 64 * 64 + m mod 64) * 64"
      unfolding add_mult_distrib by simp
    then show ?thesis by simp
  qed
  moreover have "m * 64 + n mod 64 = n"
    by (simp add: m_def)
  ultimately show ?thesis
    by (simp add: m_def [symmetric])
qed

lemma split_sextets4:
  "n div 262144 * 262144 + n div 4096 mod 64 * 4096 + n div 64 mod 64 * 64 + n mod 64 = (n::nat)"
proof -
  define m where "m = n div 64"
  have a: "n div 262144 = m div 4096"
    by (simp add: m_def div_mult2_eq [symmetric])
  have b: "n div 4096 = m div 64"
    by (simp add: m_def div_mult2_eq [symmetric])
  have "(m div 4096 * 4096 + m div 64 mod 64 * 64 + m mod 64) * 64 = m * 64"
    by (simp only: split_sextets3)
  moreover have "m div 4096 * 262144 + m div 64 mod 64 * 4096 + m mod 64 * 64
      = (m div 4096 * 4096 + m div 64 mod 64 * 64 + m mod 64) * 64"
    unfolding add_mult_distrib by simp
  ultimately have c: "m div 4096 * 262144 + m div 64 mod 64 * 4096 + m mod 64 * 64 = m * 64"
    by (simp only:)
  have d: "m * 64 + n mod 64 = n"
    by (simp add: m_def)
  show ?thesis
    unfolding a b m_def [symmetric] c by (rule d)
qed

lemma utf8Decode_1:
  assumes "unat c < 0x80"
  shows "utf8Decode (byteOf (unat c) # bs) = c # utf8Decode bs"
proof -
  have "unat (byteOf (unat c)) = unat c"
    using assms by (intro unat_byteOf) simp
  then show ?thesis
    using assms by (simp add: fromCharCode_unat)
qed

lemma utf8Decode_2:
  assumes "0x80 \<le> n" "n < 0x800"
  shows "utf8Decode (utf8Bytes2 n @ bs) = fromCharCode n # utf8Decode bs"
proof -
  have d: "n div 64 < 32" "2 \<le> n div 64"
    using assms by simp_all
  have b0: "unat (byteOf (0xC0 + n div 64)) = 0xC0 + n div 64"
    using d by (intro unat_byteOf) simp
  have b1: "unat (byteOf (0x80 + n mod 64)) = 0x80 + n mod 64"
    by (intro unat_byteOf) simp
  show ?thesis
    using d by (simp add: utf8Bytes2_def b0 b1 isCont_def contBits_def)
qed

lemma utf8Decode_3:
  assumes "0x800 \<le> n" "n < 0x10000" "\<not> (0xD800 \<le> n \<and> n < 0xE000)"
  shows "utf8Decode (utf8Bytes3 n @ bs) = fromCharCode n # utf8Decode bs"
proof -
  have d: "n div 4096 < 16"
    using assms by simp
  have b0: "unat (byteOf (0xE0 + n div 4096)) = 0xE0 + n div 4096"
    using d by (intro unat_byteOf) simp
  have b1: "unat (byteOf (0x80 + n div 64 mod 64)) = 0x80 + n div 64 mod 64"
    by (intro unat_byteOf) simp
  have b2: "unat (byteOf (0x80 + n mod 64)) = 0x80 + n mod 64"
    by (intro unat_byteOf) simp
  show ?thesis
    using d assms by (simp add: utf8Bytes3_def b0 b1 b2 isCont_def contBits_def Let_def split_sextets3)
qed

lemma utf8Decode_4:
  assumes "0x10000 \<le> n" "n < 0x110000"
  shows "utf8Decode (utf8Bytes4 n @ bs) = surrogatePair n @ utf8Decode bs"
proof -
  have d: "n div 262144 < 5"
    using assms by simp
  have b0: "unat (byteOf (0xF0 + n div 262144)) = 0xF0 + n div 262144"
    using d by (intro unat_byteOf) simp
  have b1: "unat (byteOf (0x80 + n div 4096 mod 64)) = 0x80 + n div 4096 mod 64"
    by (intro unat_byteOf) simp
  have b2: "unat (byteOf (0x80 + n div 64 mod 64)) = 0x80 + n div 64 mod 64"
    by (intro unat_byteOf) simp
  have b3: "unat (byteOf (0x80 + n mod 64)) = 0x80 + n mod 64"
    by (intro unat_byteOf) simp
  show ?thesis
    using d assms by (simp add: utf8Bytes4_def b0 b1 b2 b3 isCont_def contBits_def Let_def split_sextets4)
qed

lemma pairCodePoint_range:
  assumes "isHighSurrogate c" "isLowSurrogate d"
  shows "0x10000 \<le> pairCodePoint c d \<and> pairCodePoint c d < 0x110000"
proof -
  have "unat c - 0xD800 \<le> 0x3FF" "unat d - 0xDC00 \<le> 0x3FF"
    using assms unfolding isHighSurrogate_def isLowSurrogate_def by linarith+
  then have "(unat c - 0xD800) * 0x400 + (unat d - 0xDC00) \<le> 0x3FF * 0x400 + 0x3FF"
    by (intro add_mono mult_le_mono1)
  then show ?thesis
    by (simp add: pairCodePoint_def)
qed

lemma surrogatePair_pairCodePoint:
  assumes "isHighSurrogate c" "isLowSurrogate d"
  shows "surrogatePair (pairCodePoint c d) = [c, d]"
proof -
  have lo: "unat d - 0xDC00 < 0x400" and lo': "0xDC00 \<le> unat d" and hi': "0xD800 \<le> unat c"
    using assms unfolding isHighSurrogate_def isLowSurrogate_def by linarith+
  have off: "pairCodePoint c d - 0x10000 = (unat c - 0xD800) * 0x400 + (unat d - 0xDC00)"
    by (simp add: pairCodePoint_def)
  have q: "(pairCodePoint c d - 0x10000) div 0x400 = unat c - 0xD800"
    unfolding off by (rule div_mult_add_small [OF lo])
  have r: "(pairCodePoint c d - 0x10000) mod 0x400 = unat d - 0xDC00"
    unfolding off by (rule mod_mult_add_small [OF lo])
  show ?thesis
    unfolding surrogatePair_def q r using lo' hi' by (simp add: fromCharCode_unat)
qed

lemma utf8_roundtrip: "wellFormedUtf16 s \<Longrightarrow> utf8Decode (utf8Encode s) = s"
proof (induction s rule: wellFormedUtf16.induct)
  case 1
  show ?case by simp
next
  case (2 c cs)
  show ?case
  proof (cases "isHighSurrogate c")
    case True
    with "2.prems" obtain d ds where cs: "cs = d # ds" and d: "isLowSurrogate d" and wf: "wellFormedUtf16 ds"
      by (auto split: list.splits)
    have ih: "utf8Decode (utf8Encode ds) = ds"
      using "2.IH"(1) [OF True cs wf] .
    have big: "\<not> unat c < 0x80" "\<not> unat c < 0x800"
      using True by (simp_all add: isHighSurrogate_def)
    have enc: "utf8Encode (c # cs) = utf8Bytes4 (pairCodePoint c d) @ utf8Encode ds"
      using True d big by (simp add: cs)
    show ?thesis
      unfolding enc using pairCodePoint_range [OF True d]
      by (simp add: utf8Decode_4 surrogatePair_pairCodePoint [OF True d] ih cs)
  next
    case False
    with "2.prems" have nl: "\<not> isLowSurrogate c" and wf: "wellFormedUtf16 cs"
      by simp_all
    have ih: "utf8Decode (utf8Encode cs) = cs"
      using "2.IH"(2) [OF False wf] .
    consider "unat c < 0x80" | "0x80 \<le> unat c" "unat c < 0x800" | "0x800 \<le> unat c"
      by linarith
    then show ?thesis
    proof cases
      case 1
      then show ?thesis by (simp add: utf8Decode_1 ih del: utf8Decode.simps)
    next
      case 2
      then show ?thesis by (simp add: utf8Decode_2 ih fromCharCode_unat del: utf8Decode.simps)
    next
      case 3
      have ns: "\<not> (0xD800 \<le> unat c \<and> unat c < 0xE000)"
        using False nl by (auto simp add: isHighSurrogate_def isLowSurrogate_def)
      have enc: "utf8Encode (c # cs) = utf8Bytes3 (unat c) @ utf8Encode cs"
        using 3 False nl by simp
      show ?thesis
        unfolding enc using 3 ns unat_jschar_less [of c]
        by (simp add: utf8Decode_3 ih fromCharCode_unat)
    qed
  qed
qed

section \<open>Facts about the token codec\<close>

lemma length_xorChars: "length (xorChars data k) = length data"
  by (simp add: xorChars_def)

lemma nth_xorChars: "i < length data \<Longrightarrow> xorChars data k ! i = (data ! i) XOR keyCharCode k i"
  by (simp add: xorChars_def)

lemma xorChars_involution: "xorChars (xorChars data k) k = data"
  by (rule nth_equalityI) (simp_all add: length_xorChars nth_xorChars xor.assoc)

lemma xorDecrypt_of_encoded:
  assumes "wellFormedUtf16 cipher"
  shows "xorDecrypt (Utilities_base64Encode cipher) (Some k) = Inr (xorChars cipher k)"
proof -
  have "Utilities_base64Decode (Utilities_base64Encode cipher) = Some (utf8Encode cipher)"
    by (simp add: Utilities_base64Decode_def Utilities_base64Encode_def base64_roundtrip)
  moreover have "getDataAsString (utf8Encode cipher) = cipher"
    using assms by (simp add: getDataAsString_def utf8_roundtrip)
  ultimately show ?thesis
    by (simp add: xorDecrypt_def tryCatch_def)
qed

lemma xorDecrypt_invalid_base64:
  "Utilities_base64Decode token = None \<Longrightarrow>
     xorDecrypt token key = Inl (Error (js ''Decryption failed: Invalid token''))"
  by (simp add: xorDecrypt_def tryCatch_def)

lemma xorDecrypt_missing_key:
  "xorDecrypt token None = Inl (Error (js ''Decryption failed: Invalid token''))"
  by (simp add: xorDecrypt_def tryCatch_def split: option.splits)

lemma xorDecrypt_cases:
  "xorDecrypt token (Some k) =
     (case Utilities_base64Decode token of
        None \<Rightarrow> Inl (Error (js ''Decryption failed: Invalid token''))
      | Some bytes \<Rightarrow> Inr (xorChars (getDataAsString bytes) k))"
  by (simp add: xorDecrypt_def tryCatch_def split: option.splits)

lemmas js_eval = js_def fromCharCode_def byteOf_def

lemmas codec_eval = Utilities_base64Encode_def Utilities_base64Decode_def getDataAsString_def
  base64Char_def base64Code_def base64Value_def decodeQuad_def decodeLastQuad_def
  utf8Bytes2_def utf8Bytes3_def utf8Bytes4_def pairCodePoint_def surrogatePair_def
  isCont_def contBits_def isHighSurrogate_def isLowSurrogate_def

lemmas token_eval = xorEncrypt_def xorDecrypt_def xorRoundTrip_def xorChars_def keyCharCode_def
  tryCatch_def

lemma utf8Encode_ascii:
  "list_all (\<lambda>c. unat c < 0x80) s \<Longrightarrow> utf8Encode s = map (\<lambda>c. byteOf (unat c)) s"
  by (induction s) simp_all

lemma length_utf8Encode_ge: "length s \<le> length (utf8Encode s)"
proof (induction s rule: length_induct)
  case (1 s)
  show ?case
  proof (cases s)
    case Nil
    then show ?thesis by simp
  next
    case (Cons c cs)
    have tail: "length cs \<le> length (utf8Encode cs)"
      using 1 Cons by simp
    show ?thesis
    proof (cases "isHighSurrogate c \<and> \<not> unat c < 0x80 \<and> \<not> unat c < 0x800")
      case False
      then show ?thesis
        using tail by (auto simp add: Cons utf8Bytes2_def utf8Bytes3_def)
    next
      case True
      show ?thesis
      proof (cases cs)
        case Nil
        with True Cons show ?thesis by simp
      next
        case inner: (Cons d ds)
        have "length ds \<le> length (utf8Encode ds)"
          using 1 Cons inner by simp
        with True tail show ?thesis
          by (simp add: Cons inner utf8Bytes4_def)
      qed
    qed
  qed
qed

lemma utf8Encode_same_units:
  "map unat (utf8Encode s) = map unat s \<Longrightarrow> list_all (\<lambda>c. unat c < 0x80) s"
proof (induction s)
  case Nil
  show ?case by simp
next
  case (Cons c cs)
  from Cons.prems have "length (map unat (utf8Encode (c # cs))) = length (map unat (c # cs))"
    by (rule arg_cong)
  then have len: "length (utf8Encode (c # cs)) = Suc (length cs)"
    by (simp only: length_map length_Cons)
  have tail: "length cs \<le> length (utf8Encode cs)"
    by (rule length_utf8Encode_ge)
  show ?case
  proof (cases "unat c < 0x80")
    case True
    with Cons.prems have "map unat (utf8Encode cs) = map unat cs"
      by simp
    with Cons.IH True show ?thesis by simp
  next
    case False
    have False
    proof (cases "unat c < 0x800")
      case True
      with False len tail show False
        by (simp add: utf8Bytes2_def)
    next
      case big: False
      show False
      proof (cases "isHighSurrogate c")
        case True
        show False
        proof (cases cs)
          case Nil
          with True False big Cons.prems show False
            by (simp add: isHighSurrogate_def)
        next
          case (Cons d ds)
          show False
          proof (cases "isLowSurrogate d")
            case low: True
            have "length ds \<le> length (utf8Encode ds)"
              by (rule length_utf8Encode_ge)
            with True False big low Cons len show False
              by (simp add: utf8Bytes4_def)
          next
            case nolow: False
            with True False big Cons \<open>map unat (utf8Encode (c # cs)) = map unat (c # cs)\<close>
            show False
              by (simp add: isHighSurrogate_def)
          qed
        qed
      next
        case nohigh: False
        show False
        proof (cases "isLowSurrogate c")
          case True
          with nohigh False big Cons.prems show False
            by (simp add: isLowSurrogate_def)
        next
          case False
          with nohigh \<open>\<not> unat c < 0x80\<close> big len tail show False
            by (simp add: utf8Bytes3_def)
        qed
      qed
    qed
    then show ?thesis ..
  qed
qed

lemma utf8Encode_units_iff:
  "(map unat (utf8Encode s) = map unat s) = list_all (\<lambda>c. unat c < 0x80) s"
proof
  assume "map unat (utf8Encode s) = map unat s"
  then show "list_all (\<lambda>c. unat c < 0x80) s"
    by (rule utf8Encode_same_units)
next
  assume a: "list_all (\<lambda>c. unat c < 0x80) s"
  then have "utf8Encode s = map (\<lambda>c. byteOf (unat c)) s"
    by (rule utf8Encode_ascii)
  moreover have "map unat (map (\<lambda>c. byteOf (unat c)) s) = map unat s"
    using a by (induction s) (simp_all add: unat_byteOf)
  ultimately show "map unat (utf8Encode s) = map unat s"
    by simp
qed

subsection \<open>Strings of units below 0x8000, decimal time stamps, issued tokens\<close>

lemma xor_nat_below:
  fixes a b :: nat
  assumes "a < 2 ^ n" and "b < 2 ^ n"
  shows "a XOR b < 2 ^ n"
proof -
  have "int a XOR int b < 2 ^ n"
    using assms by (intro XOR_upper) simp_all
  then have "int (a XOR b) < int (2 ^ n)"
    by (simp add: of_nat_xor_eq)
  then show ?thesis
    by (simp only: of_nat_less_iff)
qed

lemma xor_below_8000:
  fixes a b :: jschar
  assumes "unat a < 0x8000" and "unat b < 0x8000"
  shows "unat (a XOR b) < 0x8000"
proof -
  have "unat a XOR unat b < 2 ^ 15"
    using assms by (intro xor_nat_below) simp_all
  then show ?thesis
    by (simp add: unsigned_xor_eq)
qed

lemma below_8000_wellFormed:
  "list_all (\<lambda>c. unat c < 0x8000) s \<Longrightarrow> wellFormedUtf16 s"
  by (induction s) (auto simp add: isHighSurrogate_def isLowSurrogate_def)

lemma xorChars_below_8000:
  assumes "list_all (\<lambda>c. unat c < 0x8000) data" and "list_all (\<lambda>c. unat c < 0x8000) k"
  shows "list_all (\<lambda>c. unat c < 0x8000) (xorChars data k)"
proof -
  have key: "unat (keyCharCode k i) < 0x8000" for i
    using assms(2) by (simp add: keyCharCode_def list_all_length)
  have "unat (xorChars data k ! i) < 0x8000" if "i < length data" for i
    using that assms(1) key [of i] by (simp add: nth_xorChars xor_below_8000 list_all_length)
  then show ?thesis
    by (simp add: list_all_length length_xorChars)
qed

lemma xorChars_wellFormed_below_8000:
  assumes "k \<noteq> []" and "list_all (\<lambda>c. unat c < 0x8000) data" and "list_all (\<lambda>c. unat c < 0x8000) k"
  shows "wellFormedUtf16 (xorChars data k)"
  using assms by (intro below_8000_wellFormed xorChars_below_8000)

lemma digitValue_decimal:
  "d < 10 \<Longrightarrow> digitValue 10 (fromCharCode (0x30 + d)) = Some d"
  by (simp add: digitValue_def Let_def unat_fromCharCode)

lemma unat_decimal_char: "d < 10 \<Longrightarrow> unat (fromCharCode (0x30 + d)) = 0x30 + d"
  by (simp add: unat_fromCharCode)

lemma digitPrefix_append:
  "list_all (\<lambda>c. digitValue radix c \<noteq> None) xs \<Longrightarrow>
     digitPrefix radix (xs @ ys) = digitPrefix radix xs @ digitPrefix radix ys"
  by (induction xs) auto

lemma decimalDigits_facts:
  "decimalDigits n \<noteq> []
   \<and> list_all (\<lambda>c. 0x30 \<le> unat c \<and> unat c \<le> 0x39) (decimalDigits n)
   \<and> list_all (\<lambda>c. digitValue 10 c \<noteq> None) (decimalDigits n)
   \<and> foldl (\<lambda>acc d. acc * 10 + d) 0 (digitPrefix 10 (decimalDigits n)) = n"
proof (induction n rule: decimalDigits.induct)
  case (1 n)
  show ?case
  proof (cases "n < 10")
    case True
    then show ?thesis
      by (simp add: decimalDigits.simps [of n] digitValue_decimal unat_decimal_char)
  next
    case False
    have m: "n mod 10 < 10" by simp
    from False "1.IH" have ih:
      "decimalDigits (n div 10) \<noteq> []"
      "list_all (\<lambda>c. 0x30 \<le> unat c \<and> unat c \<le> 0x39) (decimalDigits (n div 10))"
      "list_all (\<lambda>c. digitValue 10 c \<noteq> None) (decimalDigits (n div 10))"
      "foldl (\<lambda>acc d. acc * 10 + d) 0 (digitPrefix 10 (decimalDigits (n div 10))) = n div 10"
      by simp_all
    have eq: "decimalDigits n = decimalDigits (n div 10) @ [fromCharCode (0x30 + n mod 10)]"
      using False by (simp add: decimalDigits.simps [of n])
    show ?thesis
      unfolding eq using ih m
      by (simp add: digitPrefix_append digitValue_decimal unat_decimal_char)
  qed
qed

lemma parseInt_decimalDigits: "parseInt (decimalDigits n) = Number (int n)"
proof -
  obtain c cs where ds: "decimalDigits n = c # cs"
    using decimalDigits_facts [of n] by (cases "decimalDigits n") auto
  have digits: "list_all (\<lambda>c. 0x30 \<le> unat c \<and> unat c \<le> 0x39) (c # cs)"
    using decimalDigits_facts [of n] by (simp add: ds)
  then have c: "0x30 \<le> unat c" "unat c \<le> 0x39"
    by simp_all
  have nw: "\<not> isStrWhiteSpaceChar c"
    using c by (auto simp add: isStrWhiteSpaceChar_def)
  have ns: "c \<noteq> 0x2B" "c \<noteq> 0x2D"
    using c by auto
  have nh: "\<not> (case c # cs of a # b # r \<Rightarrow> a = 0x30 \<and> (b = 0x78 \<or> b = 0x58) | _ \<Rightarrow> False)"
    using digits by (cases cs) auto
  have pre: "digitPrefix 10 (c # cs) \<noteq> []"
    using decimalDigits_facts [of n] by (auto simp add: ds split: option.splits)
  have val: "foldl (\<lambda>acc d. acc * 10 + d) 0 (digitPrefix 10 (c # cs)) = n"
    using decimalDigits_facts [of n] by (simp add: ds)
  have "parseInt (c # cs) = Number (int n)"
    unfolding parseInt_def Let_def using nw ns nh pre val
    by (simp del: digitPrefix.simps)
  then show ?thesis by (simp add: ds)
qed

lemma splitOn_no_separator: "sep \<notin> set s \<Longrightarrow> splitOn sep s = [s]"
  by (induction s) auto

lemma splitOn_two_parts:
  "sep \<notin> set a \<Longrightarrow> sep \<notin> set b \<Longrightarrow> splitOn sep (a @ sep # b) = [a, b]"
  by (induction a) (auto simp add: splitOn_no_separator)

lemma validateSheetToken_decoded:
  assumes "k \<noteq> []"
    and "xorDecrypt token (Some k) = Inr plaintext"
    and "splitOn 0x7C plaintext = [sheetId, stamp]"
    and "parseInt stamp = Number issuedAt"
  shows "validateSheetToken k now token =
           Inr (if now - issuedAt > 86400000 then Invalid (js ''Token expired'')
                else Valid sheetId (Number issuedAt))"
  using assms by (simp add: validateSheetToken_def tryCatch_def Let_def)

lemma issued_token_validates:
  assumes k: "k \<noteq> []"
    and kb: "list_all (\<lambda>c. unat c < 0x8000) k"
    and sb: "list_all (\<lambda>c. unat c < 0x8000) sheetId"
    and sep: "0x7C \<notin> set sheetId"
    and T: "0 \<le> T"
  shows "\<exists>tok. generateSheetToken k sheetId T = Inr tok
           \<and> validateSheetToken k now tok =
               Inr (if now - T > 86400000 then Invalid (js ''Token expired'')
                    else Valid sheetId (Number T))"
proof -
  define stamp where "stamp = decimalDigits (nat T)"
  define tokenData where "tokenData = sheetId @ 0x7C # stamp"
  define tok where "tok = Utilities_base64Encode (xorChars tokenData k)"
  have digits: "list_all (\<lambda>c. 0x30 \<le> unat c \<and> unat c \<le> 0x39) stamp"
    using decimalDigits_facts [of "nat T"] by (simp add: stamp_def)
  have gen: "generateSheetToken k sheetId T = Inr tok"
    using k T by (simp add: generateSheetToken_def xorEncrypt_def numberToString_def Let_def
        tok_def tokenData_def stamp_def js_eval)
  have "list_all (\<lambda>c. unat c < 0x8000) stamp"
    using digits by (auto simp add: list_all_iff)
  then have "list_all (\<lambda>c. unat c < 0x8000) tokenData"
    using sb by (simp add: tokenData_def)
  then have "wellFormedUtf16 (xorChars tokenData k)"
    using k kb by (intro xorChars_wellFormed_below_8000)
  then have dec: "xorDecrypt tok (Some k) = Inr tokenData"
    by (simp add: tok_def xorDecrypt_of_encoded xorChars_involution)
  have "0x7C \<notin> set stamp"
    using digits by (auto simp add: list_all_iff)
  then have parts: "splitOn 0x7C tokenData = [sheetId, stamp]"
    using sep by (simp add: tokenData_def splitOn_two_parts)
  have stampT: "parseInt stamp = Number T"
    using T by (simp add: stamp_def parseInt_decimalDigits)
  show ?thesis
    using gen validateSheetToken_decoded [OF k dec parts stampT] by simp
qed

section \<open>Facts about the sheet\<close>

lemma length_nth_le_gridWidth: "i < length g \<Longrightarrow> length (g ! i) \<le> gridWidth g"
  unfolding gridWidth_def
proof (induction g arbitrary: i)
  case Nil
  then show ?case by simp
next
  case (Cons a g)
  show ?case
  proof (cases i)
    case 0
    then show ?thesis by simp
  next
    case (Suc j)
    with Cons.prems have "j < length g" by simp
    from Cons.IH [OF this] show ?thesis using Suc by simp
  qed
qed

lemma cellAt_outside: "length g < r \<or> gridWidth g < c \<Longrightarrow> cellAt g r c = JStr []"
proof -
  assume a: "length g < r \<or> gridWidth g < c"
  show ?thesis
  proof (cases "1 \<le> r \<and> r \<le> length g")
    case True
    then have "length (g ! (r - 1)) \<le> gridWidth g"
      by (intro length_nth_le_gridWidth) arith
    with a True show ?thesis by (simp add: cellAt_def)
  next
    case False
    then show ?thesis by (auto simp add: cellAt_def)
  qed
qed

lemma cellAt_tabulate:
  "cellAt (map (\<lambda>r. map (\<lambda>c. F r c) [1..<C + 1]) [1..<R + 1]) r c =
     (if 1 \<le> r \<and> r \<le> R \<and> 1 \<le> c \<and> c \<le> C then F r c else JStr [])"
  unfolding cellAt_def by (auto simp add: nth_upt simp del: upt_Suc)

lemma cellAt_writeRange:
  assumes "1 \<le> r" and "1 \<le> c"
  shows "cellAt (writeRange g row col h w f) r c =
           (if row \<le> r \<and> r < row + h \<and> col \<le> c \<and> c < col + w then f (r - row) (c - col)
            else cellAt g r c)"
proof -
  define R where "R = max (length g) (row + h - 1)"
  define C where "C = max (gridWidth g) (col + w - 1)"
  define F where "F = (\<lambda>r c. if row \<le> r \<and> r < row + h \<and> col \<le> c \<and> c < col + w
                                then f (r - row) (c - col) else cellAt g r c)"
  have wr: "writeRange g row col h w f = map (\<lambda>r. map (\<lambda>c. F r c) [1..<C + 1]) [1..<R + 1]"
    by (simp add: writeRange_def R_def C_def F_def)
  show ?thesis
  proof (cases "r \<le> R \<and> c \<le> C")
    case True
    with assms have "cellAt (writeRange g row col h w f) r c = F r c"
      unfolding wr cellAt_tabulate by simp
    then show ?thesis by (simp add: F_def)
  next
    case False
    then have out: "cellAt (writeRange g row col h w f) r c = JStr []"
      unfolding wr cellAt_tabulate by auto
    from False have "length g < r \<or> gridWidth g < c"
      by (auto simp add: R_def C_def)
    then have "cellAt g r c = JStr []"
      by (rule cellAt_outside)
    moreover from False have "\<not> (row \<le> r \<and> r < row + h \<and> col \<le> c \<and> c < col + w)"
      by (auto simp add: R_def C_def)
    ultimately show ?thesis using out by auto
  qed
qed

lemma getValues_setValues:
  assumes "1 \<le> row" and "1 \<le> col" and "length vals = h" and "list_all (\<lambda>v. length v = w) vals"
  shows "getValues (setValues g row col h w vals) row col h w = vals"
proof (rule nth_equalityI)
  show "length (getValues (setValues g row col h w vals) row col h w) = length vals"
    using assms(3) by (simp add: getValues_def)
next
  fix i
  assume "i < length (getValues (setValues g row col h w vals) row col h w)"
  then have i: "i < h"
    by (simp add: getValues_def)
  then have len: "length (vals ! i) = w"
    using assms(3,4) by (simp add: list_all_length)
  have "getValues (setValues g row col h w vals) row col h w ! i
      = map (\<lambda>c. cellAt (setValues g row col h w vals) (row + i) c) [col..<col + w]"
    using i by (simp add: getValues_def)
  also have "\<dots> = vals ! i"
  proof (rule nth_equalityI)
    show "length (map (\<lambda>c. cellAt (setValues g row col h w vals) (row + i) c) [col..<col + w]) = length (vals ! i)"
      using len by simp
  next
    fix j
    assume "j < length (map (\<lambda>c. cellAt (setValues g row col h w vals) (row + i) c) [col..<col + w])"
    then have j: "j < w" by simp
    have "cellAt (setValues g row col h w vals) (row + i) (col + j) = vals ! i ! j"
      unfolding setValues_def using assms(1,2) i j
      by (simp add: cellAt_writeRange)
    then show "map (\<lambda>c. cellAt (setValues g row col h w vals) (row + i) c) [col..<col + w] ! j = vals ! i ! j"
      using j by simp
  qed
  finally show "getValues (setValues g row col h w vals) row col h w ! i = vals ! i" .
qed

lemma le_last_sorted:
  assumes "sorted xs" and "x \<in> set xs"
  shows "xs \<noteq> [] \<and> (x::nat) \<le> last xs"
proof -
  have ne: "xs \<noteq> []"
    using assms(2) by auto
  obtain i where i: "i < length xs" "xs ! i = x"
    using assms(2) by (auto simp add: in_set_conv_nth)
  have "xs ! i \<le> xs ! (length xs - 1)"
    using assms(1) i(1) by (intro sorted_nth_mono) auto
  then show ?thesis
    using ne i(2) by (simp add: last_conv_nth)
qed

lemma le_lastFilled:
  assumes "1 \<le> c" and "c \<le> length cs" and "cs ! (c - 1) \<noteq> JStr []"
  shows "c \<le> lastFilled cs"
proof -
  define xs where "xs = filter (\<lambda>c. cs ! (c - 1) \<noteq> JStr []) [1..<length cs + 1]"
  have "sorted xs"
    by (simp add: xs_def sorted_wrt_filter del: upt_Suc)
  moreover have "c \<in> set xs"
    using assms by (simp add: xs_def del: upt_Suc)
  ultimately have "xs \<noteq> [] \<and> c \<le> last xs"
    by (rule le_last_sorted)
  moreover have "lastFilled cs = (case xs of [] \<Rightarrow> 0 | c # cs \<Rightarrow> last (c # cs))"
    by (simp add: lastFilled_def xs_def)
  ultimately show ?thesis
    by (cases xs) simp_all
qed

lemma le_getLastRow:
  assumes "1 \<le> r" and "r \<le> length g" and "lastFilled (g ! (r - 1)) \<noteq> 0"
  shows "r \<le> getLastRow g"
proof -
  define xs where "xs = filter (\<lambda>r. lastFilled (g ! (r - 1)) \<noteq> 0) [1..<length g + 1]"
  have "sorted xs"
    by (simp add: xs_def sorted_wrt_filter del: upt_Suc)
  moreover have "r \<in> set xs"
    using assms by (simp add: xs_def del: upt_Suc)
  ultimately have "xs \<noteq> [] \<and> r \<le> last xs"
    by (rule le_last_sorted)
  moreover have "getLastRow g = (case xs of [] \<Rightarrow> 0 | r # rs \<Rightarrow> last (r # rs))"
    by (simp add: getLastRow_def xs_def)
  ultimately show ?thesis
    by (cases xs) simp_all
qed

lemma cellAt_beyond_lastRow:
  assumes "getLastRow g < r"
  shows "cellAt g r c = JStr []"
proof (rule ccontr)
  assume ne: "cellAt g r c \<noteq> JStr []"
  then have r: "1 \<le> r" "r \<le> length g" and c: "1 \<le> c" "c \<le> length (g ! (r - 1))"
    and v: "g ! (r - 1) ! (c - 1) \<noteq> JStr []"
    by (auto simp add: cellAt_def split: if_splits)
  have "c \<le> lastFilled (g ! (r - 1))"
    using c v by (rule le_lastFilled)
  with c(1) have "lastFilled (g ! (r - 1)) \<noteq> 0"
    by simp
  with r have "r \<le> getLastRow g"
    by (rule le_getLastRow)
  with assms show False by simp
qed

section \<open>Facts about the sync engine\<close>

lemmas value_eval = orElse_def getProp_def nthOrUndefined_def numberToString_def decimalDigits.simps

lemmas sheet_eval = cellAt_def getValues_def gridWidth_def writeRange_def setValues_def
  clearContent_def lastFilled_def getLastRow_def getLastColumn_def getDataRangeValues_def
  SHEET_CONFIG_headers_def SHEET_CONFIG_keyColumn_def

lemmas example_eval = jsonQuoted_def exampleStoredIds_def exampleCatalog_def exampleAck_def
  exampleParse_def exampleStringify_def exampleServer_def exampleEnv_def exampleState_def

lemma filter_not_in_JStr:
  "filter (\<lambda>i. i \<notin> JStr ` S) (map JStr snap) = map JStr (filter (\<lambda>i. i \<notin> S) snap)"
  by (induction snap) auto

lemma sheetProductIds_rows:
  "sheetProductIds g =
     map (\<lambda>r. toStringJ (cellAt g r 1))
       (filter (\<lambda>r. truthy (cellAt g r 1)) [2..<max 1 (getLastRow g) + 1])"
proof -
  define C where "C = max 1 (getLastColumn g)"
  have C: "0 < C" by (simp add: C_def)
  have first: "nthOrUndefined (map (cellAt g r) [Suc 0..<Suc C]) 0 = cellAt g r (Suc 0)" for r
    using C by (simp add: nthOrUndefined_def nth_upt del: upt_Suc)
  have "drop 1 (getDataRangeValues g)
      = map (\<lambda>r. map (\<lambda>c. cellAt g r c) [1..<1 + C]) [2..<max 1 (getLastRow g) + 1]"
    by (simp add: getDataRangeValues_def getValues_def C_def drop_map numeral_2_eq_2 del: upt_Suc)
  then show ?thesis
    by (simp add: sheetProductIds_def SHEET_CONFIG_keyColumn_def filter_map comp_def first del: upt_Suc)
qed

lemma set_sheetProductIds:
  "i \<in> set (sheetProductIds g)
     \<longleftrightarrow> (\<exists>r. 2 \<le> r \<and> truthy (cellAt g r 1) \<and> toStringJ (cellAt g r 1) = i)"
proof
  assume "i \<in> set (sheetProductIds g)"
  then show "\<exists>r. 2 \<le> r \<and> truthy (cellAt g r 1) \<and> toStringJ (cellAt g r 1) = i"
    by (auto simp add: sheetProductIds_rows simp del: upt_Suc)
next
  assume "\<exists>r. 2 \<le> r \<and> truthy (cellAt g r 1) \<and> toStringJ (cellAt g r 1) = i"
  then obtain r where r: "2 \<le> r" "truthy (cellAt g r 1)" "toStringJ (cellAt g r 1) = i"
    by blast
  have "r \<le> getLastRow g"
  proof (rule ccontr)
    assume "\<not> r \<le> getLastRow g"
    then have "cellAt g r 1 = JStr []"
      by (intro cellAt_beyond_lastRow) simp
    with r(2) show False by simp
  qed
  then have "r \<in> set (filter (\<lambda>r. truthy (cellAt g r 1)) [2..<max 1 (getLastRow g) + 1])"
    using r by (simp del: upt_Suc)
  then show "i \<in> set (sheetProductIds g)"
    using r(3) unfolding sheetProductIds_rows by (auto simp del: upt_Suc)
qed

lemma example_ids: "sheetProductIds (cells (activeSheet exampleState)) = [js ''1'', js ''3'']"
  by (simp add: example_eval sheet_eval sheetProductIds_def value_eval js_eval)

lemma productRows_Inr: "productRows ps = Inr newData \<Longrightarrow> newData = map rowData ps"
  by (induction ps arbitrary: newData)
    (auto simp add: productRow_def split: sum.splits)

lemma length_rowData: "length (rowData product) = 10"
  by (simp add: rowData_def)

lemma length_headers: "length SHEET_CONFIG_headers = 10"
  by (simp add: SHEET_CONFIG_headers_def)

lemma cleared_below_header:
  assumes "2 \<le> r" and "1 \<le> c" and "c \<le> 10"
  shows "cellAt (if getLastRow g > 1 then clearContent g 2 1 (getLastRow g - 1) 10 else g) r c = JStr []"
proof (cases "getLastRow g > 1")
  case True
  show ?thesis
  proof (cases "r \<le> getLastRow g")
    case True
    with assms \<open>getLastRow g > 1\<close> show ?thesis
      by (simp add: clearContent_def cellAt_writeRange)
  next
    case False
    then have "cellAt g r c = JStr []"
      by (intro cellAt_beyond_lastRow) simp
    with assms \<open>getLastRow g > 1\<close> show ?thesis
      by (simp add: clearContent_def cellAt_writeRange)
  qed
next
  case False
  with assms have "getLastRow g < r" by simp
  then have "cellAt g r c = JStr []"
    by (rule cellAt_beyond_lastRow)
  with False show ?thesis by simp
qed

lemma updateSheetWithProducts_success:
  assumes "updateSheetWithProducts sh products = (Inr written, sh')"
  shows "getValues (cells sh') 2 1 (length products) 10 = map rowData products
         \<and> (\<forall>r c. length products + 1 < r \<and> 1 \<le> c \<and> c \<le> 10 \<longrightarrow> cellAt (cells sh') r c = JStr [])"
proof -
  define g1 where "g1 = (if getLastRow (cells sh) > 1
      then clearContent (cells sh) 2 1 (getLastRow (cells sh) - 1) 10 else cells sh)"
  define newData where "newData = map rowData products"
  from assms have rows: "productRows products = Inr newData"
    by (auto simp add: updateSheetWithProducts_def Let_def newData_def
        split: sum.splits if_splits dest: productRows_Inr)
  have len: "length newData = length products"
    by (simp add: newData_def)
  have all10: "list_all (\<lambda>v. length v = 10) newData"
    by (simp add: newData_def list_all_iff length_rowData)
  have cells': "cells sh' = (if length products > 0 then setValues g1 2 1 (length products) 10 newData else g1)"
    using assms rows len
    by (auto simp add: updateSheetWithProducts_def Let_def g1_def length_headers split: if_splits)
  have empty1: "cellAt g1 r c = JStr []" if "2 \<le> r" "1 \<le> c" "c \<le> 10" for r c
    unfolding g1_def using that by (rule cleared_below_header)
  show ?thesis
  proof (cases "length products > 0")
    case True
    have "getValues (setValues g1 2 1 (length products) 10 newData) 2 1 (length products) 10 = newData"
      using len all10 by (intro getValues_setValues) simp_all
    moreover have "cellAt (setValues g1 2 1 (length products) 10 newData) r c = JStr []"
      if "length products + 1 < r" "1 \<le> c" "c \<le> 10" for r c
      using that empty1 [of r c] by (simp add: setValues_def cellAt_writeRange)
    ultimately show ?thesis
      using True by (simp add: cells' newData_def)
  next
    case False
    then show ?thesis
      using empty1 by (simp add: cells' getValues_def)
  qed
qed

lemma fetchProducts_write_success:
  assumes "fetchProducts_write ev st fetchUrl products = (Inr (FetchSuccess m n u), st')"
  shows "\<exists>ps written. products = JArr ps \<and> n = int (length ps) \<and> u = fetchUrl
           \<and> updateSheetWithProducts (activeSheet st) (rev ps) = (Inr written, activeSheet st')"
  using assms
  by (cases products)
    (auto simp add: fetchProducts_write_def storeCurrentProductIds_def Let_def
      split: prod.splits sum.splits if_splits)

lemma fetchProducts_response_success:
  assumes "fetchProducts_response ev st fetchUrl resp = (Inr (FetchSuccess m n u), st')"
  shows "\<exists>result. JSON_parse ev (contentText resp) = Inr result
           \<and> fetchProducts_write ev st fetchUrl (propOf result (js ''data'')) = (Inr (FetchSuccess m n u), st')"
  using assms
  by (auto simp add: fetchProducts_response_def getProp_def split: sum.splits if_splits)

lemma fetchProducts_request_success:
  assumes "fetchProducts_request ev st cfg = (Inr (FetchSuccess m n u), st')"
  shows "\<exists>req resp st1 fetchUrl. UrlFetchApp_fetch ev req = Inr resp \<and> reqMethod req = js ''GET''
           \<and> reqUrl req = fetchUrl
           \<and> fetchProducts_response ev st1 fetchUrl resp = (Inr (FetchSuccess m n u), st')"
proof -
  define st1 where "st1 = st\<lparr>activeSheet := setupSheetHeaders (activeSheet st)\<rparr>"
  define fetchUrl where "fetchUrl = baseUrl cfg @ js ''/wp-json/'' @ WP_API_CONFIG_namespace @ endpoints_getProducts"
  from assms obtain tok where tok:
    "generateSheetToken (ENCRYPTION_CONFIG_secretKey st1) (spreadsheetId ev) (clock ev) = Inr tok"
    by (auto simp add: fetchProducts_request_def Let_def st1_def split: sum.splits)
  define req where "req = \<lparr>reqUrl = fetchUrl, reqMethod = js ''GET'', reqToken = tok, reqPayload = None\<rparr>"
  from assms tok obtain resp where resp: "UrlFetchApp_fetch ev req = Inr resp"
    by (auto simp add: fetchProducts_request_def Let_def st1_def req_def fetchUrl_def split: sum.splits)
  from assms tok resp have "fetchProducts_response ev st1 fetchUrl resp = (Inr (FetchSuccess m n u), st')"
    by (simp add: fetchProducts_request_def Let_def st1_def req_def fetchUrl_def)
  with resp show ?thesis
    by (intro exI [of _ req] exI [of _ resp] exI [of _ st1] exI [of _ fetchUrl]) (simp add: req_def)
qed

lemma fetchProducts_success:
  assumes "fetchProducts ev st = (Inr (FetchSuccess m n u), st')"
  shows "\<exists>st3 cfg. fetchProducts_request ev st3 cfg = (Inr (FetchSuccess m n u), st')"
  using assms
  by (auto simp add: fetchProducts_def tryCatchS_def fetchProducts_try_def
      split: prod.splits sum.splits if_splits)

lemma getConfig_configured:
  assumes "propertyTruthy (userProperties st (js ''WP_BASE_URL''))"
    and "propertyTruthy (userProperties st (js ''WP_SECRET_KEY''))"
  shows "isConfigured (fst (getConfig st))"
    and "secretKey (fst (getConfig st)) \<noteq> []"
    and "ENCRYPTION_CONFIG_secretKey (snd (getConfig st)) \<noteq> []"
    and "userProperties (snd (getConfig st)) = userProperties st"
    and "getConfig (snd (getConfig st)) = getConfig st"
  using assms
  by (auto simp add: getConfig_def propertyTruthy_def propertyOrEmpty_def Let_def split: option.splits)

lemma validateSecretKey_configured:
  assumes "propertyTruthy (userProperties st (js ''WP_BASE_URL''))"
    and "propertyTruthy (userProperties st (js ''WP_SECRET_KEY''))"
  shows "validateSecretKey st = (Inr True, snd (getConfig st))"
  using getConfig_configured(2) [OF assms]
  by (cases "getConfig st") (simp add: validateSecretKey_def)

lemma generateSheetToken_configured:
  "k \<noteq> [] \<Longrightarrow> \<exists>tok. generateSheetToken k sheetId now = Inr tok"
  by (simp add: generateSheetToken_def xorEncrypt_def Let_def)

lemma productRows_succeeds:
  "list_all (\<lambda>p. \<not> isNullish p) ps \<Longrightarrow> productRows ps = Inr (map rowData ps)"
  by (induction ps) (simp_all add: productRow_def getProp_def)

lemma fetchProducts_succeeds:
  assumes base: "propertyTruthy (userProperties st (js ''WP_BASE_URL''))"
    and secret: "propertyTruthy (userProperties st (js ''WP_SECRET_KEY''))"
    and server: "\<And>req. reqMethod req = js ''GET'' \<Longrightarrow> UrlFetchApp_fetch ev req = Inr resp"
    and code: "responseCode resp = 200"
    and parse: "JSON_parse ev (contentText resp) = Inr result"
    and data: "propOf result (js ''data'') = JArr ps"
    and products: "list_all (\<lambda>p. \<not> isNullish p) ps"
  shows "\<exists>m u st'. fetchProducts ev st = (Inr (FetchSuccess m (int (length ps)) u), st')"
proof -
  define st1 where "st1 = snd (getConfig st)"
  define cfg where "cfg = fst (getConfig st)"
  have gc: "getConfig st = (cfg, st1)"
    by (simp add: st1_def cfg_def)
  have base1: "propertyTruthy (userProperties st1 (js ''WP_BASE_URL''))"
    and secret1: "propertyTruthy (userProperties st1 (js ''WP_SECRET_KEY''))"
    using base secret getConfig_configured(4) [OF base secret] by (simp_all add: st1_def)
  have st11: "snd (getConfig st1) = st1"
    using getConfig_configured(5) [OF base secret] by (simp add: st1_def)
  have v1: "validateSecretKey st = (Inr True, st1)"
    using validateSecretKey_configured [OF base secret] by (simp add: st1_def)
  have v2: "validateSecretKey st1 = (Inr True, st1)"
    using validateSecretKey_configured [OF base1 secret1] st11 by simp
  have conf: "isConfigured cfg"
    using getConfig_configured(1) [OF base secret] by (simp add: cfg_def)
  have body: "fetchProducts_try ev st = fetchProducts_request ev st1 cfg"
    using conf by (simp add: fetchProducts_try_def gc v2)
  define st2 where "st2 = st1\<lparr>activeSheet := setupSheetHeaders (activeSheet st1)\<rparr>"
  have "ENCRYPTION_CONFIG_secretKey st2 \<noteq> []"
    using getConfig_configured(3) [OF base secret] by (simp add: st2_def st1_def)
  from generateSheetToken_configured [OF this] obtain tok
    where tok: "generateSheetToken (ENCRYPTION_CONFIG_secretKey st2) (spreadsheetId ev) (clock ev) = Inr tok"
    by blast
  define fetchUrl where "fetchUrl = baseUrl cfg @ js ''/wp-json/'' @ WP_API_CONFIG_namespace @ endpoints_getProducts"
  have req: "fetchProducts_request ev st1 cfg = fetchProducts_response ev st2 fetchUrl resp"
    using tok by (simp add: fetchProducts_request_def Let_def st2_def [symmetric] fetchUrl_def server)
  have nn: "\<not> isNullish result"
    using data by (cases result) simp_all
  have resp: "fetchProducts_response ev st2 fetchUrl resp = fetchProducts_write ev st2 fetchUrl (JArr ps)"
    using code parse nn data by (simp add: fetchProducts_response_def getProp_def)
  have "\<exists>sh. updateSheetWithProducts (activeSheet st2) (rev ps) = (Inr (length ps), sh)"
    using productRows_succeeds [of "rev ps"] products
    by (simp add: updateSheetWithProducts_def Let_def)
  then obtain sh where "updateSheetWithProducts (activeSheet st2) (rev ps) = (Inr (length ps), sh)"
    by blast
  then have "\<exists>m u st'. fetchProducts_write ev st2 fetchUrl (JArr ps) = (Inr (FetchSuccess m (int (length ps)) u), st')"
    by (simp add: fetchProducts_write_def)
  then show ?thesis
    by (auto simp add: fetchProducts_def tryCatchS_def body req resp)
qed

lemma lengthOrZero_array: "lengthOrZero (JArr xs) = JNum (int (length xs))"
  by (simp add: lengthOrZero_def)

lemma lengthOrZero_absent: "lengthOrZero JUndefined = JNum 0"
  by (simp add: lengthOrZero_def)

lemma updateProducts_result_data_present:
  assumes "JSON_parse ev (contentText resp) = Inr result"
    and "\<not> isNullish result"
    and "\<not> isNullish (propOf result (js ''data''))"
  shows "updateProducts_result ev st resp
           = (Inr (PushSuccess (orElse (propOf result (js ''message'')) (JStr (js ''Products updated successfully'')))
                     (lengthOrZero (propOf (propOf result (js ''data'')) (js ''updated'')))
                     (lengthOrZero (propOf (propOf result (js ''data'')) (js ''deleted'')))), st)"
  using assms by (simp add: updateProducts_result_def getProp_def)

lemma updateProducts_result_data_absent:
  assumes "JSON_parse ev (contentText resp) = Inr result"
    and "\<not> isNullish result"
    and "isNullish (propOf result (js ''data''))"
  shows "updateProducts_result ev st resp
           = (Inl (TypeError (js ''Cannot read properties of undefined (reading '' @ js ''updated'' @ js '')'')), st)"
  using assms by (simp add: updateProducts_result_def getProp_def)

lemma updateProductsToWordPress_ok_response:
  assumes base: "propertyTruthy (userProperties st (js ''WP_BASE_URL''))"
    and secret: "propertyTruthy (userProperties st (js ''WP_SECRET_KEY''))"
    and server: "\<And>req. reqMethod req = js ''POST'' \<Longrightarrow> UrlFetchApp_fetch ev req = Inr resp"
    and code: "responseCode resp = 200"
  shows "\<exists>st'. updateProductsToWordPress_try ev st rs deleted = updateProducts_result ev st' resp"
proof -
  define st1 where "st1 = snd (getConfig st)"
  define cfg where "cfg = fst (getConfig st)"
  have gc: "getConfig st = (cfg, st1)"
    by (simp add: st1_def cfg_def)
  have base1: "propertyTruthy (userProperties st1 (js ''WP_BASE_URL''))"
    and secret1: "propertyTruthy (userProperties st1 (js ''WP_SECRET_KEY''))"
    using base secret getConfig_configured(4) [OF base secret] by (simp_all add: st1_def)
  have st11: "snd (getConfig st1) = st1"
    using getConfig_configured(5) [OF base secret] by (simp add: st1_def)
  have v: "validateSecretKey st1 = (Inr True, st1)"
    using validateSecretKey_configured [OF base1 secret1] st11 by simp
  have conf: "isConfigured cfg"
    using getConfig_configured(1) [OF base secret] by (simp add: cfg_def)
  have "ENCRYPTION_CONFIG_secretKey st1 \<noteq> []"
    using getConfig_configured(3) [OF base secret] by (simp add: st1_def)
  from generateSheetToken_configured [OF this] obtain tok
    where tok: "generateSheetToken (ENCRYPTION_CONFIG_secretKey st1) (spreadsheetId ev) (clock ev) = Inr tok"
    by blast
  have "updateProductsToWordPress_try ev st rs deleted = updateProducts_response ev st1 resp"
    using conf tok by (simp add: updateProductsToWordPress_try_def gc v Let_def server)
  then show ?thesis
    using code by (auto simp add: updateProducts_response_def Let_def)
qed

lemma updateProductsToWordPress_data_absent:
  assumes base: "propertyTruthy (userProperties st (js ''WP_BASE_URL''))"
    and secret: "propertyTruthy (userProperties st (js ''WP_SECRET_KEY''))"
    and server: "\<And>req. reqMethod req = js ''POST'' \<Longrightarrow> UrlFetchApp_fetch ev req = Inr resp"
    and code: "responseCode resp = 200"
    and parse: "JSON_parse ev (contentText resp) = Inr result"
    and result: "\<not> isNullish result"
    and data: "isNullish (propOf result (js ''data''))"
  shows "fst (updateProductsToWordPress ev st rs deleted)
           = Inr (PushFailure (js ''TypeError: Cannot read properties of undefined (reading updated)''))"
proof -
  from updateProductsToWordPress_ok_response [OF base secret server code] obtain st'
    where "updateProductsToWordPress_try ev st rs deleted = updateProducts_result ev st' resp"
    by blast
  then show ?thesis
    by (simp add: updateProductsToWordPress_def tryCatchS_def
        updateProducts_result_data_absent [OF parse result data] errorToString_def js_eval)
qed

lemma updateProductsToWordPress_data_present:
  assumes base: "propertyTruthy (userProperties st (js ''WP_BASE_URL''))"
    and secret: "propertyTruthy (userProperties st (js ''WP_SECRET_KEY''))"
    and server: "\<And>req. reqMethod req = js ''POST'' \<Longrightarrow> UrlFetchApp_fetch ev req = Inr resp"
    and code: "responseCode resp = 200"
    and parse: "JSON_parse ev (contentText resp) = Inr result"
    and result: "\<not> isNullish result"
    and data: "\<not> isNullish (propOf result (js ''data''))"
  shows "fst (updateProductsToWordPress ev st rs deleted)
           = Inr (PushSuccess (orElse (propOf result (js ''message'')) (JStr (js ''Products updated successfully'')))
                     (lengthOrZero (propOf (propOf result (js ''data'')) (js ''updated'')))
                     (lengthOrZero (propOf (propOf result (js ''data'')) (js ''deleted''))))"
proof -
  from updateProductsToWordPress_ok_response [OF base secret server code] obtain st'
    where "updateProductsToWordPress_try ev st rs deleted = updateProducts_result ev st' resp"
    by blast
  then show ?thesis
    by (simp add: updateProductsToWordPress_def tryCatchS_def
        updateProducts_result_data_present [OF parse result data])
qed

lemma example_base: "propertyTruthy (userProperties exampleState (js ''WP_BASE_URL''))"
  by (simp add: exampleState_def propertyTruthy_def js_eval)

lemma example_secret: "propertyTruthy (userProperties exampleState (js ''WP_SECRET_KEY''))"
  by (simp add: exampleState_def propertyTruthy_def js_eval)

lemma example_get:
  "reqMethod req = js ''GET'' \<Longrightarrow>
     UrlFetchApp_fetch exampleEnv req = Inr \<lparr>responseCode = 200, contentText = exampleCatalog\<rparr>"
  by (simp add: exampleEnv_def exampleServer_def js_eval)

lemma example_post:
  "reqMethod req = js ''POST'' \<Longrightarrow>
     UrlFetchApp_fetch exampleEnv req = Inr \<lparr>responseCode = 200, contentText = exampleAck\<rparr>"
  by (simp add: exampleEnv_def exampleServer_def)

lemma example_parse_catalog:
  "JSON_parse exampleEnv exampleCatalog
     = Inr (JObj [(js ''data'', JArr [JObj [(js ''id'', JNum 1)], JObj [(js ''id'', JNum 2)],
                                     JObj [(js ''id'', JNum 3)]])])"
  by (simp add: exampleEnv_def exampleParse_def)

lemma example_parse_ack:
  "JSON_parse exampleEnv exampleAck = Inr (JObj [(js ''message'', JStr (js ''ok''))])"
  by (simp add: exampleEnv_def exampleParse_def exampleAck_def exampleCatalog_def exampleStoredIds_def
      jsonQuoted_def js_eval)

section \<open>The claims about the token codec\<close>

text \<open>
  C1 (amended). Decoding inverts encoding under the same non-empty secret whenever the
  encrypted string, the unit-wise XOR of the plaintext with the repeated secret, is
  well-formed UTF-16: \<^verbatim>\<open>xorDecrypt(xorEncrypt(P, S), S) == P\<close>. The encrypted string
  travels through the platform's UTF-8 text encoding, which keeps exactly the
  well-formed strings. It is well formed in particular when every unit of the plaintext
  and of the secret is below 0x8000 (\<open>xorChars_wellFormed_below_8000\<close>), which
  covers ASCII.
\<close>

theorem xorRoundTrip_wellFormed:
  assumes "key \<noteq> []" and "wellFormedUtf16 (xorChars data key)"
  shows "xorRoundTrip data (Some key) = Inr data"
proof -
  have "xorEncrypt data (Some key) = Inr (Utilities_base64Encode (xorChars data key))"
    using assms(1) by (simp add: xorEncrypt_def)
  moreover have "xorDecrypt (Utilities_base64Encode (xorChars data key)) (Some key)
      = Inr (xorChars (xorChars data key) key)"
    using assms(2) by (rule xorDecrypt_of_encoded)
  ultimately show ?thesis
    by (simp add: xorRoundTrip_def xorChars_involution)
qed

theorem xorRoundTrip_wellFormed_witness:
  "js ''k'' \<noteq> [] \<and> wellFormedUtf16 (xorChars (js ''A|1'') (js ''k''))
   \<and> xorRoundTrip (js ''A|1'') (Some (js ''k'')) = Inr (js ''A|1'')"
proof -
  have k: "js ''k'' \<noteq> []"
    by (simp add: js_def)
  have wf: "wellFormedUtf16 (xorChars (js ''A|1'') (js ''k''))"
    by (simp add: js_eval xorChars_def keyCharCode_def isHighSurrogate_def isLowSurrogate_def)
  show ?thesis
    using k wf xorRoundTrip_wellFormed [OF k wf] by simp
qed

text \<open>
  C1 as stated fails: with the plaintext \<^verbatim>\<open>A|1\<close> and the secret U+1F600 (the two units
  D83D DE00), the third encrypted unit is a high surrogate with no partner; it is encoded
  as \<^verbatim>\<open>?\<close>, and decoding returns another string.
\<close>

theorem xorRoundTrip_counterexample:
  "xorRoundTrip (js ''A|1'') (Some [0xD83D, 0xDE00]) = Inr [0x41, 0x7C, 0xD802]
   \<and> xorRoundTrip (js ''A|1'') (Some [0xD83D, 0xDE00]) \<noteq> Inr (js ''A|1'')"
  by (simp add: js_eval codec_eval token_eval)

text \<open>
  C6 (amended). \<^verbatim>\<open>xorEncrypt\<close> throws its configuration error for a missing or empty
  secret. For a non-empty secret it returns \<^verbatim>\<open>Utilities.base64Encode\<close> of the encrypted
  string, which has one UTF-16 code unit per code unit of the plaintext, unit \<open>i\<close> being
  the XOR of plaintext unit \<open>i\<close> with secret unit \<open>i mod length secret\<close>. The Base64 text
  encodes the UTF-8 bytes of that string, and these bytes are the encrypted units
  themselves (as many, byte \<open>i\<close> with the value of unit \<open>i\<close>) exactly when every encrypted
  unit is below 0x80.
\<close>

theorem xorEncrypt_spec:
  "xorEncrypt data None = Inl (Error (js ''Secret key is required for encryption''))
   \<and> xorEncrypt data (Some []) = Inl (Error (js ''Secret key is required for encryption''))
   \<and> (key \<noteq> [] \<longrightarrow>
        xorEncrypt data (Some key) = Inr (base64EncodeBytes (utf8Encode (xorChars data key)))
        \<and> xorEncrypt data (Some key) = Inr (Utilities_base64Encode (xorChars data key))
        \<and> length (xorChars data key) = length data
        \<and> (\<forall>i < length data.
              xorChars data key ! i = (data ! i) XOR (key ! (i mod length key)))
        \<and> ((map unat (utf8Encode (xorChars data key)) = map unat (xorChars data key))
               = list_all (\<lambda>c. unat c < 0x80) (xorChars data key)))"
  by (simp add: xorEncrypt_def length_xorChars nth_xorChars keyCharCode_def
      Utilities_base64Encode_def utf8Encode_units_iff)

theorem xorEncrypt_spec_witness:
  "js ''k'' \<noteq> []
   \<and> xorEncrypt (js ''A|1'') (Some (js ''k'')) = Inr (js ''Khda'')
   \<and> length (xorChars (js ''A|1'') (js ''k'')) = length (js ''A|1'')
   \<and> xorChars (js ''A|1'') (js ''k'') ! 1 = (js ''A|1'' ! 1) XOR (js ''k'' ! (1 mod length (js ''k'')))
   \<and> map unat (utf8Encode (xorChars (js ''A|1'') (js ''k''))) = [0x2A, 0x17, 0x5A]"
proof -
  have k: "js ''k'' \<noteq> []"
    by (simp add: js_def)
  have cipher: "xorChars (js ''A|1'') (js ''k'') = [0x2A, 0x17, 0x5A]"
    by (simp add: js_eval xorChars_def keyCharCode_def)
  have enc: "Utilities_base64Encode [0x2A, 0x17, 0x5A] = js ''Khda''"
    by (simp add: js_eval codec_eval)
  have i: "1 < length (js ''A|1'')"
    by (simp add: js_def)
  have small: "list_all (\<lambda>c. unat c < 0x80) [0x2A, 0x17, 0x5A :: jschar]"
    by simp
  from xorEncrypt_spec [of "js ''A|1''" "js ''k''"] k
  have a: "xorEncrypt (js ''A|1'') (Some (js ''k'')) = Inr (Utilities_base64Encode (xorChars (js ''A|1'') (js ''k'')))"
    and b: "length (xorChars (js ''A|1'') (js ''k'')) = length (js ''A|1'')"
    and c: "\<forall>i < length (js ''A|1'').
              xorChars (js ''A|1'') (js ''k'') ! i = (js ''A|1'' ! i) XOR (js ''k'' ! (i mod length (js ''k'')))"
    and d: "(map unat (utf8Encode (xorChars (js ''A|1'') (js ''k''))) = map unat (xorChars (js ''A|1'') (js ''k'')))
              = list_all (\<lambda>c. unat c < 0x80) (xorChars (js ''A|1'') (js ''k''))"
    by blast+
  from a have a': "xorEncrypt (js ''A|1'') (Some (js ''k'')) = Inr (js ''Khda'')"
    by (simp only: cipher enc)
  from c i have c': "xorChars (js ''A|1'') (js ''k'') ! 1 = (js ''A|1'' ! 1) XOR (js ''k'' ! (1 mod length (js ''k'')))"
    by blast
  from d small have "map unat (utf8Encode (xorChars (js ''A|1'') (js ''k''))) = map unat [0x2A, 0x17, 0x5A :: jschar]"
    by (simp only: cipher)
  then have d': "map unat (utf8Encode (xorChars (js ''A|1'') (js ''k''))) = [0x2A, 0x17, 0x5A]"
    by simp
  from k a' b c' d' show ?thesis
    by blast
qed

text \<open>
  C6 as stated fails: with the plaintext \<^verbatim>\<open>A\<close> and the secret U+00E9 the encrypted string
  is the one unit A8, and what is encoded in Base64 is its UTF-8 form, the two bytes C2 A8,
  not the one byte A8.
\<close>

theorem xorEncrypt_bytes_counterexample:
  "xorChars (js ''A'') [0xE9] = [0xA8]
   \<and> xorEncrypt (js ''A'') (Some [0xE9]) = Inr (base64EncodeBytes [0xC2, 0xA8])
   \<and> xorEncrypt (js ''A'') (Some [0xE9]) \<noteq> Inr (base64EncodeBytes [0xA8])
   \<and> length [0xC2, 0xA8 :: byte] \<noteq> length (js ''A'')"
  by (simp add: js_eval codec_eval token_eval)

text \<open>
  C7 fails on the code for the empty secret: \<^verbatim>\<open>xorDecrypt\<close> has no guard of the kind
  \<^verbatim>\<open>xorEncrypt\<close> has, and with the empty string as secret it returns the decoded text
  unchanged instead of throwing. Here the token \<^verbatim>\<open>QQ==\<close> decodes to \<^verbatim>\<open>A\<close>. (Input that is
  not Base64 and a missing secret do end in the decode error:
  \<open>xorDecrypt_invalid_base64\<close>, \<open>xorDecrypt_missing_key\<close>.)
\<close>

theorem xorDecrypt_empty_secret_returns:
  "xorDecrypt (js ''QQ=='') (Some []) = Inr (js ''A'')"
  by (simp add: js_eval codec_eval token_eval)

text \<open>
  C2. A token that decodes, under the configured secret, to the two parts sheet id and
  time stamp \<open>T\<close> is rejected as expired exactly when \<^verbatim>\<open>now - T > 86400000\<close>; otherwise it
  is accepted with that sheet id and time stamp. So \<open>T + 86400000\<close> is the last accepted
  instant and \<open>T + 86400001\<close> the first rejected one. Every token that
  \<^verbatim>\<open>generateSheetToken\<close> issues at a time \<open>T\<close> from 0 on, for a sheet id without \<^verbatim>\<open>|\<close> and
  with units below 0x8000 in the id and the secret, is such a token
  (\<open>issued_token_validates\<close>).
\<close>

theorem validateSheetToken_expiry:
  assumes "key \<noteq> []"
    and "xorDecrypt token (Some key) = Inr plaintext"
    and "splitOn 0x7C plaintext = [sheetId, stamp]"
    and "parseInt stamp = Number issuedAt"
  shows "validateSheetToken key now token =
           Inr (if now - issuedAt > 86400000 then Invalid (js ''Token expired'')
                else Valid sheetId (Number issuedAt))"
  using assms by (rule validateSheetToken_decoded)

theorem validateSheetToken_expiry_witness:
  "generateSheetToken (js ''k'') (js ''S'') 1000 = Inr (js ''OBdaW1tb'')
   \<and> validateSheetToken (js ''k'') 86401000 (js ''OBdaW1tb'') = Inr (Valid (js ''S'') (Number 1000))
   \<and> validateSheetToken (js ''k'') 86401001 (js ''OBdaW1tb'') = Inr (Invalid (js ''Token expired''))"
proof -
  have k: "js ''k'' \<noteq> []"
    by (simp add: js_def)
  have gen: "generateSheetToken (js ''k'') (js ''S'') 1000 = Inr (js ''OBdaW1tb'')"
    by (simp add: generateSheetToken_def numberToString_def decimalDigits.simps
        js_eval codec_eval token_eval)
  have dec: "xorDecrypt (js ''OBdaW1tb'') (Some (js ''k'')) = Inr (js ''S|1000'')"
    by (simp add: js_eval codec_eval token_eval)
  have parts: "splitOn 0x7C (js ''S|1000'') = [js ''S'', js ''1000'']"
    by (simp add: js_eval)
  have stamp: "parseInt (js ''1000'') = Number 1000"
    by (simp add: parseInt_def isStrWhiteSpaceChar_def digitValue_def Let_def js_eval)
  show ?thesis
    using gen validateSheetToken_expiry [OF k dec parts stamp, of 86401000]
      validateSheetToken_expiry [OF k dec parts stamp, of 86401001]
    by simp
qed

text \<open>
  C10. \<^verbatim>\<open>validateSheetToken\<close> returns for every token, secret and clock value and never
  throws. A success carries the first part of the decoded token and the parsed second
  part; a failure carries one of the four messages: secret not configured, token not
  decodable, wrong number of parts, token expired.
\<close>

theorem validateSheetToken_total:
  "\<exists>v. validateSheetToken key now token = Inr v
     \<and> (case v of
          Valid sheetId timestamp \<Rightarrow>
            key \<noteq> []
            \<and> (\<exists>plaintext stamp.
                  xorDecrypt token (Some key) = Inr plaintext
                  \<and> splitOn 0x7C plaintext = [sheetId, stamp]
                  \<and> timestamp = parseInt stamp
                  \<and> \<not> greaterThan (minusNumber now timestamp) 86400000)
        | Invalid err \<Rightarrow>
            err \<in> set [js ''Secret key is not configured. Cannot validate token.'',
                        js ''Decryption failed: Invalid token'',
                        js ''Invalid token format'',
                        js ''Token expired''])"
proof (cases "key = []")
  case True
  then show ?thesis
    by (simp add: validateSheetToken_def tryCatch_def)
next
  case False
  show ?thesis
  proof (cases "Utilities_base64Decode token")
    case None
    with False show ?thesis
      by (simp add: validateSheetToken_def tryCatch_def xorDecrypt_cases)
  next
    case (Some bytes)
    define plaintext where "plaintext = xorChars (getDataAsString bytes) key"
    have dec: "xorDecrypt token (Some key) = Inr plaintext"
      by (simp add: xorDecrypt_cases Some plaintext_def)
    show ?thesis
    proof (cases "length (splitOn 0x7C plaintext) = 2")
      case False
      with \<open>key \<noteq> []\<close> dec show ?thesis
        by (simp add: validateSheetToken_def tryCatch_def Let_def)
    next
      case True
      then obtain sheetId stamp where parts: "splitOn 0x7C plaintext = [sheetId, stamp]"
        by (auto simp add: length_Suc_conv numeral_2_eq_2)
      with \<open>key \<noteq> []\<close> dec show ?thesis
        by (simp add: validateSheetToken_def tryCatch_def Let_def)
    qed
  qed
qed

theorem validateSheetToken_total_witness:
  "validateSheetToken [] 0 (js ''abc'')
     = Inr (Invalid (js ''Secret key is not configured. Cannot validate token.''))
   \<and> (\<exists>v. validateSheetToken (js ''k'') 0 (js ''abc'') = Inr v)"
proof -
  have "validateSheetToken [] 0 (js ''abc'')
      = Inr (Invalid (js ''Secret key is not configured. Cannot validate token.''))"
    by (simp add: validateSheetToken_def tryCatch_def)
  moreover have "\<exists>v. validateSheetToken (js ''k'') 0 (js ''abc'') = Inr v"
    using validateSheetToken_total [of "js ''k''" 0 "js ''abc''"] by blast
  ultimately show ?thesis by simp
qed

section \<open>The claims about the sync engine\<close>

text \<open>
  C3. \<^verbatim>\<open>getDeletedProductIds\<close> returns the empty list when no snapshot is stored. When the
  stored snapshot parses to the list of id strings \<open>snapshot\<close>, it returns exactly the ids
  of \<open>snapshot\<close> that no row below the header of the sheet shows in its first cell (a
  truthy cell, read as a string), in the order of \<open>snapshot\<close>.
\<close>

theorem getDeletedProductIds_diff:
  "(documentProperties st (js ''STORED_PRODUCT_IDS'') = None \<longrightarrow> getDeletedProductIds ev st = Inr [])
   \<and> (documentProperties st (js ''STORED_PRODUCT_IDS'') = Some stored \<and> stored \<noteq> []
        \<and> JSON_parse ev stored = Inr (JArr (map JStr snapshot))
      \<longrightarrow> getDeletedProductIds ev st
            = Inr (map JStr
                (filter (\<lambda>i. \<not> (\<exists>r. 2 \<le> r \<and> truthy (cellAt (cells (activeSheet st)) r 1)
                                    \<and> toStringJ (cellAt (cells (activeSheet st)) r 1) = i))
                   snapshot)))"
  by (simp add: getDeletedProductIds_def propertyTruthy_def propertyOrEmpty_def Let_def
      filter_not_in_JStr set_sheetProductIds)

theorem getDeletedProductIds_diff_witness:
  "getDeletedProductIds exampleEnv exampleState = Inr [JStr (js ''2'')]
   \<and> getDeletedProductIds exampleEnv (exampleState\<lparr>documentProperties := Map.empty\<rparr>) = Inr []"
proof -
  have p: "documentProperties exampleState (js ''STORED_PRODUCT_IDS'') = Some exampleStoredIds"
    by (simp add: exampleState_def)
  have ne: "exampleStoredIds \<noteq> []"
    by (simp add: exampleStoredIds_def js_eval)
  have parse: "JSON_parse exampleEnv exampleStoredIds = Inr (JArr (map JStr [js ''1'', js ''2'', js ''3'']))"
    by (simp add: example_eval js_eval)
  from getDeletedProductIds_diff [of exampleState exampleEnv exampleStoredIds "[js ''1'', js ''2'', js ''3'']"]
    p ne parse
  have "getDeletedProductIds exampleEnv exampleState
      = Inr (map JStr
          (filter (\<lambda>i. \<not> (\<exists>r. 2 \<le> r \<and> truthy (cellAt (cells (activeSheet exampleState)) r 1)
                              \<and> toStringJ (cellAt (cells (activeSheet exampleState)) r 1) = i))
             [js ''1'', js ''2'', js ''3'']))"
    by blast
  then have "getDeletedProductIds exampleEnv exampleState
      = Inr (map JStr
          (filter (\<lambda>i. i \<notin> set (sheetProductIds (cells (activeSheet exampleState))))
             [js ''1'', js ''2'', js ''3'']))"
    by (simp only: set_sheetProductIds [symmetric])
  then have a: "getDeletedProductIds exampleEnv exampleState = Inr [JStr (js ''2'')]"
    by (simp add: example_ids js_eval)
  have b: "getDeletedProductIds exampleEnv (exampleState\<lparr>documentProperties := Map.empty\<rparr>) = Inr []"
    using getDeletedProductIds_diff [of "exampleState\<lparr>documentProperties := Map.empty\<rparr>" exampleEnv]
    by simp
  show ?thesis using a b by simp
qed

text \<open>
  C5. After a successful \<^verbatim>\<open>fetchProducts\<close> there is the GET request it sent and the
  response it received, whose parsed \<^verbatim>\<open>data\<close> array \<open>ps\<close> has as many products as the
  returned count; the rows 2 to \<open>length ps + 1\<close> of the sheet hold the rows of the products
  in reverse order, the last product in row 2 and the first in the last row, and the
  ten columns are empty below.
\<close>

theorem fetchProducts_reverse_order:
  assumes "fetchProducts ev st = (Inr (FetchSuccess m n u), st')"
  shows "\<exists>req resp result ps.
           UrlFetchApp_fetch ev req = Inr resp \<and> reqMethod req = js ''GET'' \<and> reqUrl req = u
           \<and> JSON_parse ev (contentText resp) = Inr result
           \<and> propOf result (js ''data'') = JArr ps
           \<and> n = int (length ps)
           \<and> getValues (cells (activeSheet st')) 2 1 (length ps) 10 = map rowData (rev ps)
           \<and> (\<forall>r c. length ps + 1 < r \<and> 1 \<le> c \<and> c \<le> 10 \<longrightarrow> cellAt (cells (activeSheet st')) r c = JStr [])"
proof -
  from fetchProducts_success [OF assms] obtain st3 cfg
    where "fetchProducts_request ev st3 cfg = (Inr (FetchSuccess m n u), st')"
    by blast
  from fetchProducts_request_success [OF this] obtain req resp st1 fetchUrl
    where req: "UrlFetchApp_fetch ev req = Inr resp" "reqMethod req = js ''GET''" "reqUrl req = fetchUrl"
      and "fetchProducts_response ev st1 fetchUrl resp = (Inr (FetchSuccess m n u), st')"
    by blast
  from fetchProducts_response_success [OF this(4)] obtain result
    where result: "JSON_parse ev (contentText resp) = Inr result"
      and "fetchProducts_write ev st1 fetchUrl (propOf result (js ''data'')) = (Inr (FetchSuccess m n u), st')"
    by blast
  from fetchProducts_write_success [OF this(2)] obtain ps written
    where ps: "propOf result (js ''data'') = JArr ps" "n = int (length ps)" "u = fetchUrl"
      and "updateSheetWithProducts (activeSheet st1) (rev ps) = (Inr written, activeSheet st')"
    by blast
  from updateSheetWithProducts_success [OF this(4)]
  have "getValues (cells (activeSheet st')) 2 1 (length ps) 10 = map rowData (rev ps)
      \<and> (\<forall>r c. length ps + 1 < r \<and> 1 \<le> c \<and> c \<le> 10 \<longrightarrow> cellAt (cells (activeSheet st')) r c = JStr [])"
    by simp
  with req result ps show ?thesis
    by blast
qed

theorem fetchProducts_reverse_order_witness:
  "(\<exists>m u st'. fetchProducts exampleEnv exampleState = (Inr (FetchSuccess m 3 u), st'))
   \<and> map hd (getValues (cells (activeSheet (snd (fetchProducts exampleEnv exampleState)))) 2 1 3 10)
       = [JNum 3, JNum 2, JNum 1]"
proof -
  define catalog where "catalog = [JObj [(js ''id'', JNum 1)], JObj [(js ''id'', JNum 2)], JObj [(js ''id'', JNum 3)]]"
  have parse: "JSON_parse exampleEnv (contentText \<lparr>responseCode = 200, contentText = exampleCatalog\<rparr>)
      = Inr (JObj [(js ''data'', JArr catalog)])"
    by (simp add: example_parse_catalog catalog_def)
  have "\<exists>m u st'. fetchProducts exampleEnv exampleState = (Inr (FetchSuccess m (int (length catalog)) u), st')"
  proof (rule fetchProducts_succeeds [OF example_base example_secret _ _ parse])
    show "UrlFetchApp_fetch exampleEnv req = Inr \<lparr>responseCode = 200, contentText = exampleCatalog\<rparr>"
      if "reqMethod req = js ''GET''" for req
      using that by (rule example_get)
    show "responseCode \<lparr>responseCode = 200, contentText = exampleCatalog\<rparr> = 200"
      by simp
    show "propOf (JObj [(js ''data'', JArr catalog)]) (js ''data'') = JArr catalog"
      by simp
    show "list_all (\<lambda>p. \<not> isNullish p) catalog"
      by (simp add: catalog_def)
  qed
  then obtain m u st' where ok: "fetchProducts exampleEnv exampleState = (Inr (FetchSuccess m 3 u), st')"
    by (auto simp add: catalog_def)
  from fetchProducts_reverse_order [OF ok] obtain req resp result ps
    where req: "UrlFetchApp_fetch exampleEnv req = Inr resp" "reqMethod req = js ''GET''"
      and result: "JSON_parse exampleEnv (contentText resp) = Inr result"
      and ps: "propOf result (js ''data'') = JArr ps"
      and rows: "getValues (cells (activeSheet st')) 2 1 (length ps) 10 = map rowData (rev ps)"
    by blast
  from req example_get [OF req(2)] have "resp = \<lparr>responseCode = 200, contentText = exampleCatalog\<rparr>"
    by simp
  with result parse have "result = JObj [(js ''data'', JArr catalog)]"
    by simp
  with ps have "ps = catalog"
    by simp
  with rows have "getValues (cells (activeSheet st')) 2 1 (length catalog) 10 = map rowData (rev catalog)"
    by simp
  moreover have "length catalog = 3"
    by (simp add: catalog_def)
  ultimately have "getValues (cells (activeSheet st')) 2 1 3 10 = map rowData (rev catalog)"
    by simp
  then have "map hd (getValues (cells (activeSheet st')) 2 1 3 10) = [JNum 3, JNum 2, JNum 1]"
    by (simp add: catalog_def rowData_def)
  with ok show ?thesis
    by auto
qed

text \<open>
  C9. When the base URL or the secret is missing from the user properties,
  \<^verbatim>\<open>fetchProducts\<close> returns \<^verbatim>\<open>{success: false}\<close> with the configuration message and leaves the
  sheet (cells, header format and frozen rows), the document properties and the user
  properties as they were.
\<close>

theorem fetchProducts_unconfigured:
  assumes "\<not> (propertyTruthy (userProperties st (js ''WP_BASE_URL''))
              \<and> propertyTruthy (userProperties st (js ''WP_SECRET_KEY'')))"
  shows "fst (fetchProducts ev st)
           = Inr (FetchFailure (js ''Error: Please configure the WordPress API URL and secret key first in Settings.''))
         \<and> activeSheet (snd (fetchProducts ev st)) = activeSheet st
         \<and> documentProperties (snd (fetchProducts ev st)) = documentProperties st
         \<and> userProperties (snd (fetchProducts ev st)) = userProperties st"
proof -
  have "fetchProducts_try ev st
      = (Inl (Error (js ''Please configure the WordPress API URL and secret key first in Settings.'')),
         snd (getConfig st))"
    using assms by (auto simp add: fetchProducts_try_def getConfig_def Let_def)
  moreover have "activeSheet (snd (getConfig st)) = activeSheet st"
    "documentProperties (snd (getConfig st)) = documentProperties st"
    "userProperties (snd (getConfig st)) = userProperties st"
    by (simp_all add: getConfig_def Let_def)
  ultimately show ?thesis
    by (simp add: fetchProducts_def tryCatchS_def errorToString_def js_eval)
qed

theorem fetchProducts_unconfigured_witness:
  "fst (fetchProducts exampleEnv (exampleState\<lparr>userProperties := [js ''WP_BASE_URL'' \<mapsto> js ''https://shop.example'']\<rparr>))
     = Inr (FetchFailure (js ''Error: Please configure the WordPress API URL and secret key first in Settings.''))
   \<and> activeSheet (snd (fetchProducts exampleEnv (exampleState\<lparr>userProperties := [js ''WP_BASE_URL'' \<mapsto> js ''https://shop.example'']\<rparr>)))
     = activeSheet exampleState"
proof -
  have "\<not> (propertyTruthy (userProperties (exampleState\<lparr>userProperties := [js ''WP_BASE_URL'' \<mapsto> js ''https://shop.example'']\<rparr>) (js ''WP_BASE_URL''))
          \<and> propertyTruthy (userProperties (exampleState\<lparr>userProperties := [js ''WP_BASE_URL'' \<mapsto> js ''https://shop.example'']\<rparr>) (js ''WP_SECRET_KEY'')))"
    by (simp add: propertyTruthy_def js_eval)
  from fetchProducts_unconfigured [OF this, of exampleEnv] show ?thesis
    by simp
qed

text \<open>
  C4 (amended). \<^verbatim>\<open>fetchProducts\<close> and \<^verbatim>\<open>updateProductsToWordPress\<close> never throw: whatever is
  thrown inside them, configuration and token failures included, comes back as
  \<^verbatim>\<open>{success: false, message: error.toString()}\<close>. The check for an empty row set is made
  by \<^verbatim>\<open>updateSelectedProducts\<close> and \<^verbatim>\<open>updateAllProducts\<close> before that try block, and its
  error is thrown to the caller.
\<close>

theorem fetch_push_failures_returned:
  "(\<exists>r. fst (fetchProducts ev st) = Inr r)
   \<and> (\<exists>r. fst (updateProductsToWordPress ev st rs deletedIds) = Inr r)
   \<and> (\<forall>e s. fetchProducts_try ev st = (Inl e, s)
         \<longrightarrow> fetchProducts ev st = (Inr (FetchFailure (errorToString e)), s))
   \<and> (\<forall>e s. updateProductsToWordPress_try ev st rs deletedIds = (Inl e, s)
         \<longrightarrow> updateProductsToWordPress ev st rs deletedIds = (Inr (PushFailure (errorToString e)), s))
   \<and> (getSelectedProductRows ev (activeSheet st) = []
         \<longrightarrow> updateSelectedProducts ev st
             = (Inl (Error (js ''Please select at least one product row to update.'')), st))
   \<and> (getAllProductRows (activeSheet st) = []
         \<longrightarrow> updateAllProducts ev st
             = (Inl (Error (js ''No products found in the sheet. Please fetch products first.'')), st))"
proof -
  have "\<exists>r. fst (fetchProducts ev st) = Inr r"
    by (auto simp add: fetchProducts_def tryCatchS_def split: prod.splits sum.splits)
  moreover have "\<exists>r. fst (updateProductsToWordPress ev st rs deletedIds) = Inr r"
    by (auto simp add: updateProductsToWordPress_def tryCatchS_def split: prod.splits sum.splits)
  ultimately show ?thesis
    by (simp add: fetchProducts_def updateProductsToWordPress_def tryCatchS_def
        updateSelectedProducts_def updateAllProducts_def Let_def)
qed

theorem fetch_push_failures_returned_witness:
  "(\<exists>r. fst (fetchProducts exampleEnv exampleState) = Inr r)
   \<and> (\<exists>r. fst (updateProductsToWordPress exampleEnv exampleState [(2, [JNum 1])] (Some [])) = Inr r)
   \<and> updateSelectedProducts exampleEnv exampleState
       = (Inl (Error (js ''Please select at least one product row to update.'')), exampleState)"
proof -
  have "getSelectedProductRows exampleEnv (activeSheet exampleState) = []"
    by (simp add: getSelectedProductRows_def Let_def exampleEnv_def)
  with fetch_push_failures_returned [of exampleEnv exampleState "[(2, [JNum 1])]" "Some []"]
  show ?thesis by simp
qed

text \<open>
  C4 as stated fails: with only the header row selected, \<^verbatim>\<open>updateSelectedProducts\<close> throws;
  so does \<^verbatim>\<open>updateAllProducts\<close> on an empty sheet.
\<close>

theorem push_empty_selection_throws:
  "fst (updateSelectedProducts exampleEnv exampleState)
     = Inl (Error (js ''Please select at least one product row to update.''))
   \<and> fst (updateAllProducts exampleEnv (exampleState\<lparr>activeSheet := \<lparr>cells = [], headerBold = False, frozenRows = 0\<rparr>\<rparr>))
     = Inl (Error (js ''No products found in the sheet. Please fetch products first.''))"
proof -
  have "getSelectedProductRows exampleEnv (activeSheet exampleState) = []"
    by (simp add: getSelectedProductRows_def Let_def exampleEnv_def)
  moreover have "getAllProductRows \<lparr>cells = [], headerBold = False, frozenRows = 0\<rparr> = []"
    by (simp add: getAllProductRows_def sheet_eval)
  ultimately show ?thesis
    by (simp add: updateSelectedProducts_def updateAllProducts_def Let_def)
qed

text \<open>
  C8 fails on the code when the response has no \<^verbatim>\<open>data\<close> field: reading
  \<^verbatim>\<open>result.data.updated\<close> throws, and the push, though the server accepted it, returns
  \<^verbatim>\<open>{success: false}\<close> instead of counts of zero. (With a \<^verbatim>\<open>data\<close> object present the counts
  are as the claim says: \<open>updateProductsToWordPress_data_present\<close> with
  \<open>lengthOrZero_array\<close> and \<open>lengthOrZero_absent\<close>.)
\<close>

theorem push_without_data_field:
  "fst (updateProductsToWordPress exampleEnv exampleState [(2, [JNum 1])] (Some []))
     = Inr (PushFailure (js ''TypeError: Cannot read properties of undefined (reading updated)''))"
proof (rule updateProductsToWordPress_data_absent [OF example_base example_secret])
  show "UrlFetchApp_fetch exampleEnv req = Inr \<lparr>responseCode = 200, contentText = exampleAck\<rparr>"
    if "reqMethod req = js ''POST''" for req
    using that by (rule example_post)
  show "responseCode \<lparr>responseCode = 200, contentText = exampleAck\<rparr> = 200"
    by simp
  show "JSON_parse exampleEnv (contentText \<lparr>responseCode = 200, contentText = exampleAck\<rparr>)
      = Inr (JObj [(js ''message'', JStr (js ''ok''))])"
    by (simp add: example_parse_ack)
  show "\<not> isNullish (JObj [(js ''message'', JStr (js ''ok''))])"
    by simp
  show "isNullish (propOf (JObj [(js ''message'', JStr (js ''ok''))]) (js ''data''))"
    by (simp add: js_eval)
qed

end
